theory Spec2Isabelle
  imports Main
begin

section \<open>Dates, times and exceptions\<close>

text \<open>
  A \<open>datetime\<close> object of Python's standard library, with the fields the program reads.
  The objects are naive (no time zone). A value of this type stands for an object that
  exists in the running program, so its date fields are a valid calendar date.
\<close>

record datetime =
  year :: nat
  month :: nat
  day :: nat
  hour :: nat
  minute :: nat
  second :: nat
  microsecond :: nat

text \<open>\<open>dt.time()\<close>: the time of day, as the tuple that \<open>time\<close> objects are compared by.\<close>

type_synonym time_of_day = "nat \<times> nat \<times> nat \<times> nat"

definition time_of :: "datetime \<Rightarrow> time_of_day" where
  "time_of dt = (hour dt, minute dt, second dt, microsecond dt)"

text \<open>\<open>t1 < t2\<close> on naive \<open>time\<close> objects: lexicographic on (hour, minute, second, microsecond).\<close>

fun time_lt :: "time_of_day \<Rightarrow> time_of_day \<Rightarrow> bool" where
  "time_lt (h1, m1, s1, u1) (h2, m2, s2, u2) =
     (h1 < h2 \<or> (h1 = h2 \<and> (m1 < m2 \<or> (m1 = m2 \<and> (s1 < s2 \<or> (s1 = s2 \<and> u1 < u2))))))"

text \<open>
  The exceptions that occur. \<open>HTTPError\<close>, \<open>URLError\<close>, \<open>TimeoutError\<close>, \<open>ValueError\<close> and
  \<open>OtherException\<close> (any other class below \<open>Exception\<close>) are instances of \<open>Exception\<close>;
  \<open>CancelledError\<close> and \<open>KeyboardInterrupt\<close> derive from \<open>BaseException\<close> only.
\<close>

datatype exn =
    ValueError
  | HTTPError nat string
  | URLError string
  | TimeoutError
  | OtherException string
  | CancelledError
  | KeyboardInterrupt

fun is_ValueError :: "exn \<Rightarrow> bool" where
  "is_ValueError ValueError = True"
| "is_ValueError _ = False"

fun is_HTTPError :: "exn \<Rightarrow> bool" where
  "is_HTTPError (HTTPError code reason) = True"
| "is_HTTPError _ = False"

fun is_Exception :: "exn \<Rightarrow> bool" where
  "is_Exception CancelledError = False"
| "is_Exception KeyboardInterrupt = False"
| "is_Exception _ = True"

section \<open>Strings and decimal digits\<close>

text \<open>
  A Python \<open>str\<close> is a sequence of Unicode code points, and the time strings come from the
  command line as they are, so they are lists of code points here. \<open>ascii\<close> writes such a
  string from a literal.
\<close>

type_synonym pystr = "nat list"

definition code_point :: "char \<Rightarrow> nat" where
  "code_point c = of_char c"

definition ascii :: "string \<Rightarrow> pystr" where
  "ascii s = map code_point s"

text \<open>
  The decimal digits of Unicode (category \<open>Nd\<close>) are what \<open>\d\<close> matches in a \<open>str\<close> pattern and
  what \<open>int\<close> converts. Below 128 they are \<open>0\<close> to \<open>9\<close>. Above, they come in runs of ten
  consecutive code points, for the values 0 to 9; which runs there are depends on the
  Unicode database of the interpreter, and is a parameter: the list of the code points of
  the zeros (U+0660, U+0966, U+FF10 and so on).
\<close>

definition decimal :: "nat list \<Rightarrow> nat \<Rightarrow> nat option" where
  "decimal zeros c =
     (if c < 128 then (if 48 \<le> c \<and> c \<le> 57 then Some (c - 48) else None)
      else (case filter (\<lambda>z. z \<le> c \<and> c < z + 10) zeros of
              [] \<Rightarrow> None
            | z # zs \<Rightarrow> Some (c - z)))"

definition is_decimal :: "nat list \<Rightarrow> nat \<Rightarrow> bool" where
  "is_decimal zeros c = (decimal zeros c \<noteq> None)"

text \<open>The number that a string of decimal digits writes.\<close>

definition digit_val :: "nat list \<Rightarrow> nat \<Rightarrow> nat" where
  "digit_val zeros c = (case decimal zeros c of None \<Rightarrow> 0 | Some v \<Rightarrow> v)"

definition value_of :: "nat list \<Rightarrow> pystr \<Rightarrow> nat" where
  "value_of zeros s = foldl (\<lambda>n c. 10 * n + digit_val zeros c) 0 s"

section \<open>The library's \<open>strptime\<close> for the format \<open>%H:%M:%S\<close>\<close>

text \<open>
  \<open>CONFIG.TIMESTAMP_FMT\<close> is \<open>'%H:%M:%S'\<close>. The library turns the format into the regular
  expression
  \<^verbatim>\<open>(?P<H>2[0-3]|[0-1]\d|\d):(?P<M>[0-5]\d|\d):(?P<S>6[0-1]|[0-5]\d|\d)\<close>
  matches it at the start of the string (alternatives in order, with backtracking), raises
  \<open>ValueError\<close> when there is no match or when text remains after the match, converts the
  groups with \<open>int\<close>, and builds \<open>datetime(1900, 1, 1, H, M, S, 0)\<close>, whose constructor
  raises \<open>ValueError\<close> for a second above 59.

  A matcher returns every way of matching a prefix, first choice first, each with the
  matched text and the rest of the input. The classes written with brackets hold the
  characters listed and no others; \<open>\d\<close> holds every decimal digit.
\<close>

type_synonym matcher = "pystr \<Rightarrow> (pystr \<times> pystr) list"

definition in_chars :: "string \<Rightarrow> nat \<Rightarrow> bool" where
  "in_chars s c = (c \<in> set (ascii s))"

definition cls :: "(nat \<Rightarrow> bool) \<Rightarrow> matcher" where
  "cls P cs = (case cs of [] \<Rightarrow> [] | c # r \<Rightarrow> if P c then [([c], r)] else [])"

definition sq :: "matcher \<Rightarrow> matcher \<Rightarrow> matcher" where
  "sq p q cs = concat (map (\<lambda>(a, r1). map (\<lambda>(b, r2). (a @ b, r2)) (q r1)) (p cs))"

definition alt :: "matcher \<Rightarrow> matcher \<Rightarrow> matcher" where
  "alt p q cs = p cs @ q cs"

definition re_H :: "nat list \<Rightarrow> matcher" where
  "re_H zeros = alt (sq (cls (in_chars ''2'')) (cls (in_chars ''0123'')))
               (alt (sq (cls (in_chars ''01'')) (cls (is_decimal zeros)))
                    (cls (is_decimal zeros)))"

definition re_M :: "nat list \<Rightarrow> matcher" where
  "re_M zeros = alt (sq (cls (in_chars ''012345'')) (cls (is_decimal zeros)))
                    (cls (is_decimal zeros))"

definition re_S :: "nat list \<Rightarrow> matcher" where
  "re_S zeros = alt (sq (cls (in_chars ''6'')) (cls (in_chars ''01'')))
               (alt (sq (cls (in_chars ''012345'')) (cls (is_decimal zeros)))
                    (cls (is_decimal zeros)))"

definition colon :: matcher where
  "colon = cls (in_chars '':'')"

text \<open>All matches of the whole expression: the three groups and the unmatched rest.\<close>

definition re_HMS :: "nat list \<Rightarrow> pystr \<Rightarrow> (pystr \<times> pystr \<times> pystr \<times> pystr) list" where
  "re_HMS zeros cs =
     concat (map (\<lambda>(h, r1).
       concat (map (\<lambda>(c1, r2).
         concat (map (\<lambda>(m, r3).
           concat (map (\<lambda>(c2, r4).
             map (\<lambda>(s, r5). (h, m, s, r5)) (re_S zeros r4))
           (colon r3)))
         (re_M zeros r2)))
       (colon r1)))
     (re_H zeros cs))"

text \<open>\<open>int(s)\<close> on the text of a group. It raises \<open>ValueError\<close> on what is not a number; a
  group is a string of decimal digits.\<close>

definition int_py :: "nat list \<Rightarrow> pystr \<Rightarrow> exn + nat" where
  "int_py zeros s =
     (if s \<noteq> [] \<and> list_all (is_decimal zeros) s then Inr (value_of zeros s)
      else Inl ValueError)"

text \<open>The checks of the \<open>datetime\<close> constructor on the time fields.\<close>

definition datetime_new :: "nat \<Rightarrow> nat \<Rightarrow> nat \<Rightarrow> nat \<Rightarrow> nat \<Rightarrow> nat \<Rightarrow> nat \<Rightarrow> exn + datetime" where
  "datetime_new y mo d h mi s us =
     (if \<not> h \<le> 23 then Inl ValueError
      else if \<not> mi \<le> 59 then Inl ValueError
      else if \<not> s \<le> 59 then Inl ValueError
      else if \<not> us \<le> 999999 then Inl ValueError
      else Inr \<lparr>year = y, month = mo, day = d, hour = h, minute = mi, second = s,
                microsecond = us\<rparr>)"

definition strptime :: "nat list \<Rightarrow> pystr \<Rightarrow> exn + datetime" where
  "strptime zeros data_string =
     (case re_HMS zeros data_string of
        [] \<Rightarrow> Inl ValueError
      | (h, m, s, rest) # _ \<Rightarrow>
          if rest \<noteq> [] then Inl ValueError
          else
            (case int_py zeros h of
               Inl e \<Rightarrow> Inl e
             | Inr hv \<Rightarrow>
                 (case int_py zeros m of
                    Inl e \<Rightarrow> Inl e
                  | Inr mv \<Rightarrow>
                      (case int_py zeros s of
                         Inl e \<Rightarrow> Inl e
                       | Inr sv \<Rightarrow> datetime_new 1900 1 1 hv mv sv 0))))"

section \<open>Differences of datetimes\<close>

text \<open>
  \<open>dt - now\<close> is a \<open>timedelta\<close>: the difference of the proleptic Gregorian ordinals in
  days, of the seconds of the day and of the microseconds. It is kept here as one integer,
  in microseconds. \<open>total_seconds()\<close> divides that integer by \<open>10**6\<close> as a float; the sign,
  which is all \<open>asyncio.sleep\<close> looks at, is the integer's.
\<close>

definition is_leap :: "int \<Rightarrow> bool" where
  "is_leap y = (y mod 4 = 0 \<and> (y mod 100 \<noteq> 0 \<or> y mod 400 = 0))"

definition days_before_year :: "int \<Rightarrow> int" where
  "days_before_year yr = (let y = yr - 1 in y * 365 + y div 4 - y div 100 + y div 400)"

definition DAYS_BEFORE_MONTH :: "int list" where
  "DAYS_BEFORE_MONTH = [-1, 0, 31, 59, 90, 120, 151, 181, 212, 243, 273, 304, 334]"

text \<open>The month of a datetime is in 1..12, so the table is read in range.\<close>

definition days_before_month :: "int \<Rightarrow> nat \<Rightarrow> int" where
  "days_before_month y m = DAYS_BEFORE_MONTH ! m + (if m > 2 \<and> is_leap y then 1 else 0)"

definition ymd2ord :: "nat \<Rightarrow> nat \<Rightarrow> nat \<Rightarrow> int" where
  "ymd2ord y m d = days_before_year (int y) + days_before_month (int y) m + int d"

definition toordinal :: "datetime \<Rightarrow> int" where
  "toordinal dt = ymd2ord (year dt) (month dt) (day dt)"

definition datetime_sub :: "datetime \<Rightarrow> datetime \<Rightarrow> int" where
  "datetime_sub a b =
     (let days1 = toordinal a; days2 = toordinal b;
          secs1 = int (second a) + int (minute a) * 60 + int (hour a) * 3600;
          secs2 = int (second b) + int (minute b) * 60 + int (hour b) * 3600
      in ((days1 - days2) * 86400 + (secs1 - secs2)) * 1000000
         + (int (microsecond a) - int (microsecond b)))"

text \<open>The instant of a datetime, in microseconds from ordinal 0.\<close>

definition instant_of :: "datetime \<Rightarrow> int" where
  "instant_of dt =
     (toordinal dt * 86400 + int (second dt) + int (minute dt) * 60 + int (hour dt) * 3600)
       * 1000000 + int (microsecond dt)"

section \<open>The environment and the state of a run\<close>

text \<open>
  The program reads the wall clock, sleeps and talks to the network. The environment fixes
  what it will meet: \<open>clock env k\<close> is the value of the \<open>k\<close>-th reading of the local clock
  (\<open>datetime.now()\<close>, \<open>datetime.today()\<close>) counted from 0, \<open>urlopen env k r\<close> is the result of
  the \<open>k\<close>-th call of \<open>urllib.request.urlopen\<close>, made with request \<open>r\<close> (a response, or the
  exception raised), and \<open>latency env k\<close> is the time that call takes, in microseconds;
  \<open>digit_zeros env\<close> is the list of the zeros of the interpreter's decimal digits above 128.
  The world records how many readings were taken, the instant the running task has
  reached, and every request sent.
\<close>

record request =
  req_url :: string
  req_user_agent :: string
  req_timeout :: nat
  req_sent_at :: int

record response =
  status :: nat
  url :: string

record env =
  clock :: "nat \<Rightarrow> datetime"
  urlopen :: "nat \<Rightarrow> request \<Rightarrow> exn + response"
  latency :: "nat \<Rightarrow> nat"
  digit_zeros :: "nat list"

record world =
  reads :: nat
  instant :: int
  requests :: "request list"

definition world0 :: world where
  "world0 = \<lparr>reads = 0, instant = 0, requests = []\<rparr>"

definition datetime_now :: "env \<Rightarrow> world \<Rightarrow> datetime \<times> world" where
  "datetime_now env w = (clock env (reads w), w\<lparr>reads := reads w + 1\<rparr>)"

definition datetime_today :: "env \<Rightarrow> world \<Rightarrow> datetime \<times> world" where
  "datetime_today env w = datetime_now env w"

section \<open>Module state\<close>

text \<open>
  \<open>CONFIG.URL\<close> is a class attribute that \<open>_parse_cli\<close> assigns. The parameter defaults
  \<open>url: str = CONFIG.URL\<close> and \<open>timeout: int = 1\<close> of \<open>wait_and_request\<close> and \<open>_do_request\<close> are
  evaluated once, when the \<open>def\<close> statement runs at import, before \<open>_parse_cli\<close> is called.
\<close>

record globals =
  CONFIG_URL :: string

definition module_globals :: globals where
  "module_globals = \<lparr>CONFIG_URL = ''http://ifconfig.co/''\<rparr>"

definition wait_and_request_url_default :: string where
  "wait_and_request_url_default = CONFIG_URL module_globals"

definition wait_and_request_timeout_default :: nat where
  "wait_and_request_timeout_default = 1"

section \<open>The time parser\<close>

definition parse_timestring :: "env \<Rightarrow> pystr \<Rightarrow> world \<Rightarrow> (exn + datetime) \<times> world" where
  "parse_timestring env timestring w =
     (case strptime (digit_zeros env) timestring of
        Inl e \<Rightarrow> (Inl e, w)
      | Inr dt \<Rightarrow>
          (let (today, w1) = datetime_today env w
           in (Inr (dt\<lparr>year := year today, month := month today, day := day today\<rparr>), w1)))"

section \<open>The fetcher and the delayed task\<close>

text \<open>
  \<open>_do_request\<close>: one \<open>urlopen\<close> with the spoofed user agent. The call stands before the
  \<open>try\<close>, so whatever it raises leaves the function; otherwise the response is returned.
\<close>

definition do_request :: "env \<Rightarrow> string \<Rightarrow> nat \<Rightarrow> world \<Rightarrow> (exn + response) \<times> world" where
  "do_request env u timeout w =
     (let r = \<lparr>req_url = u, req_user_agent = ''Mozilla/5.0'', req_timeout = timeout,
               req_sent_at = instant w\<rparr>;
          k = length (requests w);
          w1 = w\<lparr>requests := requests w @ [r], instant := instant w + int (latency env k)\<rparr>
      in (case urlopen env k r of Inl e \<Rightarrow> (Inl e, w1) | Inr c \<Rightarrow> (Inr c, w1)))"

text \<open>
  \<open>asyncio.sleep(delay)\<close> yields once and returns when \<open>delay <= 0\<close>, and suspends for
  \<open>delay\<close> otherwise; it raises in neither case. The value is the time spent suspended.
\<close>

definition asyncio_sleep :: "int \<Rightarrow> int" where
  "asyncio_sleep delay = (if delay \<le> 0 then 0 else delay)"

text \<open>
  \<open>wait_and_request\<close> up to its \<open>await asyncio.sleep(seconds)\<close>: it reads the clock and
  computes the delay. The value is the instant at which the sleep ends and the coroutine
  goes on.
\<close>

definition wait_begin :: "env \<Rightarrow> datetime \<Rightarrow> world \<Rightarrow> int \<times> world" where
  "wait_begin env dt w =
     (let (now, w1) = datetime_now env w;
          seconds = datetime_sub dt now
      in (instant_of now + asyncio_sleep seconds, w1))"

text \<open>The whole coroutine: after the sleep, \<open>_do_request\<close> in the executor.\<close>

definition wait_and_request :: "env \<Rightarrow> datetime \<Rightarrow> string \<Rightarrow> nat \<Rightarrow> world \<Rightarrow> (exn + response) \<times> world" where
  "wait_and_request env dt u timeout w =
     (let (due, w1) = wait_begin env dt w
      in do_request env u timeout (w1\<lparr>instant := due\<rparr>))"

section \<open>The command line\<close>

text \<open>\<open>s.split(',')\<close>.\<close>

fun split_on :: "'a \<Rightarrow> 'a list \<Rightarrow> 'a list list" where
  "split_on sep [] = [[]]"
| "split_on sep (c # cs) =
     (if c = sep then [] # split_on sep cs
      else (case split_on sep cs of [] \<Rightarrow> [[c]] | p # ps \<Rightarrow> (c # p) # ps))"

text \<open>The namespace that \<open>parse_args\<close> returns: the positional argument and the option.\<close>

record namespace =
  arg_timestamps :: pystr
  arg_url :: "string option"

text \<open>\<open>if args.url:\<close> holds for a string that is present and not empty.\<close>

definition parse_cli :: "namespace \<Rightarrow> globals \<Rightarrow> pystr list \<times> globals" where
  "parse_cli args g =
     (let g1 = (case arg_url args of
                  None \<Rightarrow> g
                | Some u \<Rightarrow> if u \<noteq> [] then g\<lparr>CONFIG_URL := u\<rparr> else g)
      in (split_on (code_point CHR '','') (arg_timestamps args), g1))"

section \<open>The scheduler\<close>

text \<open>
  The calls of \<open>logging\<close> are left out: they change no counter and send nothing. They are
  the only places that read \<open>CONFIG.URL\<close> after the functions are defined.
\<close>

text \<open>A task created by \<open>asyncio.create_task(wait_and_request(dt))\<close>: the call's arguments,
  with the defaults filled in. It starts to run only when \<open>start\<close> first awaits.\<close>

record task =
  task_dt :: datetime
  task_url :: string
  task_timeout :: nat

record locals =
  passes :: nat
  skips :: nat
  tasks :: "task list"

text \<open>\<open>passes, skips = 0, 0\<close> and \<open>tasks = []\<close>.\<close>

definition locals0 :: locals where
  "locals0 = \<lparr>passes = 0, skips = 0, tasks = []\<rparr>"

text \<open>The body of the first loop of \<open>start\<close>, for one \<open>timestring\<close>. \<open>except ValueError\<close>
  handles that class only; another exception would leave \<open>start\<close>.\<close>

definition intake_body :: "env \<Rightarrow> pystr \<Rightarrow> locals \<times> world \<Rightarrow> exn + locals \<times> world" where
  "intake_body env timestring lw =
     (let (l, w) = lw in
      case parse_timestring env timestring w of
        (Inl e, w1) \<Rightarrow>
          if is_ValueError e then Inr (l\<lparr>skips := skips l + 1\<rparr>, w1) else Inl e
      | (Inr dt, w1) \<Rightarrow>
          (let (now, w2) = datetime_now env w1 in
           if time_lt (time_of dt) (time_of now)
           then Inr (l\<lparr>skips := skips l + 1\<rparr>, w2)
           else
             (let t = \<lparr>task_dt = dt, task_url = wait_and_request_url_default,
                       task_timeout = wait_and_request_timeout_default\<rparr>
              in Inr (l\<lparr>tasks := tasks l @ [t], passes := passes l + 1\<rparr>, w2))))"

fun intake :: "env \<Rightarrow> pystr list \<Rightarrow> locals \<times> world \<Rightarrow> exn + locals \<times> world" where
  "intake env [] lw = Inr lw"
| "intake env (timestring # rest) lw =
     (case intake_body env timestring lw of
        Inl e \<Rightarrow> Inl e
      | Inr lw1 \<Rightarrow> intake env rest lw1)"

text \<open>
  The launched tasks run concurrently on one event loop. When \<open>start\<close> first awaits, each
  task, in launch order, runs up to its sleep: it reads the clock and is due at the end of
  its sleep.
\<close>

fun begin_tasks :: "env \<Rightarrow> task list \<Rightarrow> world \<Rightarrow> (int \<times> task) list \<times> world" where
  "begin_tasks env [] w = ([], w)"
| "begin_tasks env (t # ts) w =
     (let (due, w1) = wait_begin env (task_dt t) w;
          (ds, w2) = begin_tasks env ts w1
      in ((due, t) # ds, w2))"

text \<open>
  The tasks then go on as they fall due, the one launched first going first among those
  due at the same instant. Each hands \<open>_do_request\<close> to the executor at the instant it is
  due (the executor's threads are taken to be enough for the calls in flight), so the
  calls of \<open>urlopen\<close> are made in this order. A result is kept with the instant at which
  the task finished.
\<close>

fun resume_tasks :: "env \<Rightarrow> (int \<times> task) list \<Rightarrow> world \<Rightarrow> (int \<times> (exn + response)) list \<times> world" where
  "resume_tasks env [] w = ([], w)"
| "resume_tasks env (d # ds) w =
     (let (r, w1) = do_request env (task_url (snd d)) (task_timeout (snd d))
                      (w\<lparr>instant := fst d\<rparr>);
          (rs, w2) = resume_tasks env ds w1
      in ((instant w1, r) # rs, w2))"

definition run_tasks :: "env \<Rightarrow> task list \<Rightarrow> world \<Rightarrow> (int \<times> (exn + response)) list \<times> world" where
  "run_tasks env ts w =
     (let (ds, w1) = begin_tasks env ts w
      in resume_tasks env (sort_key fst ds) w1)"

text \<open>\<open>asyncio.as_completed\<close>: the results in the order in which the tasks finish.\<close>

definition as_completed :: "(int \<times> (exn + response)) list \<Rightarrow> (exn + response) list" where
  "as_completed finished = map snd (sort_key fst finished)"

text \<open>The second loop of \<open>start\<close>: \<open>except HTTPError\<close>, then \<open>except Exception\<close>; what neither
  clause handles leaves \<open>start\<close>.\<close>

fun drain :: "(exn + response) list \<Rightarrow> nat \<Rightarrow> exn + nat" where
  "drain [] errors = Inr errors"
| "drain (Inr result # rest) errors = drain rest errors"
| "drain (Inl e # rest) errors =
     (if is_HTTPError e then drain rest (errors + 1)
      else if is_Exception e then drain rest (errors + 1)
      else Inl e)"

text \<open>The second loop ends when the last task has finished; with no task, at once.\<close>

definition last_finish :: "(int \<times> (exn + response)) list \<Rightarrow> world \<Rightarrow> int" where
  "last_finish finished w =
     (case sort_key fst finished of [] \<Rightarrow> instant w | x # xs \<Rightarrow> fst (last (x # xs)))"

definition start :: "env \<Rightarrow> pystr list \<Rightarrow> world \<Rightarrow> exn + (nat \<times> nat \<times> nat) \<times> world" where
  "start env timestamps w =
     (case intake env timestamps (locals0, w) of
        Inl e \<Rightarrow> Inl e
      | Inr (l, w1) \<Rightarrow>
          (let (finished, w2) = run_tasks env (tasks l) w1 in
           case drain (as_completed finished) 0 of
             Inl e \<Rightarrow> Inl e
           | Inr errors \<Rightarrow>
               Inr ((passes l, skips l, errors), w2\<lparr>instant := last_finish finished w2\<rparr>)))"

text \<open>\<open>configure_logging\<close> reads the date once, for the name of the log file. The handlers
  that it installs are left out with the calls of \<open>logging\<close>.\<close>

definition configure_logging :: "env \<Rightarrow> world \<Rightarrow> world" where
  "configure_logging env w = (let (today, w1) = datetime_today env w in w1)"

text \<open>The script: \<open>configure_logging\<close>, \<open>_parse_cli\<close>, then
  \<open>asyncio.run(start(timestamps_list))\<close>.\<close>

definition main :: "env \<Rightarrow> namespace \<Rightarrow> exn + (nat \<times> nat \<times> nat) \<times> world" where
  "main env args =
     (let w1 = configure_logging env world0;
          (timestamps_list, g) = parse_cli args module_globals
      in start env timestamps_list w1)"

section \<open>Notions used in the statements\<close>

text \<open>
  A field: one decimal digit, or two decimal digits of which the first is one of \<open>0\<close> to
  \<open>9\<close>.
\<close>

definition ascii_digit :: "nat \<Rightarrow> bool" where
  "ascii_digit c = (48 \<le> c \<and> c \<le> 57)"

definition field :: "nat list \<Rightarrow> pystr \<Rightarrow> bool" where
  "field zeros d =
     (case d of
        [c] \<Rightarrow> is_decimal zeros c
      | [a, b] \<Rightarrow> ascii_digit a \<and> is_decimal zeros b
      | _ \<Rightarrow> False)"

text \<open>
  The strings the parser accepts: three fields separated by colons, the hour at most 23,
  the minute and the second at most 59, and an hour from 20 on written with \<open>0\<close> to \<open>9\<close>
  only.
\<close>

definition well_formed :: "nat list \<Rightarrow> pystr \<Rightarrow> bool" where
  "well_formed zeros s =
     (case split_on (code_point CHR '':'') s of
        [h, m, sec] \<Rightarrow>
          field zeros h \<and> field zeros m \<and> field zeros sec
          \<and> value_of zeros h \<le> 23 \<and> value_of zeros m \<le> 59 \<and> value_of zeros sec \<le> 59
          \<and> (value_of zeros h < 20 \<or> list_all ascii_digit h)
      | _ \<Rightarrow> False)"

definition field_value :: "nat list \<Rightarrow> nat \<Rightarrow> pystr \<Rightarrow> nat" where
  "field_value zeros i s = value_of zeros (split_on (code_point CHR '':'') s ! i)"

text \<open>The strings of the form \<open>HH:MM:SS\<close> read strictly: eight characters, two digits \<open>0\<close> to
  \<open>9\<close> to a field; and their fields being in range.\<close>

definition HH_MM_SS :: "pystr \<Rightarrow> bool" where
  "HH_MM_SS s =
     (length s = 8 \<and> ascii_digit (s ! 0) \<and> ascii_digit (s ! 1) \<and> s ! 2 = code_point CHR '':''
      \<and> ascii_digit (s ! 3) \<and> ascii_digit (s ! 4) \<and> s ! 5 = code_point CHR '':''
      \<and> ascii_digit (s ! 6) \<and> ascii_digit (s ! 7))"

definition strict_in_range :: "pystr \<Rightarrow> bool" where
  "strict_in_range s =
     (value_of [] (take 2 s) \<le> 23 \<and> value_of [] (take 2 (drop 3 s)) \<le> 59
      \<and> value_of [] (drop 6 s) \<le> 59)"

text \<open>The instant at a time of day, whole seconds, on the day of \<open>today\<close>.\<close>

definition on_day :: "datetime \<Rightarrow> nat \<Rightarrow> nat \<Rightarrow> nat \<Rightarrow> datetime" where
  "on_day today h m s =
     \<lparr>year = year today, month = month today, day = day today,
      hour = h, minute = m, second = s, microsecond = 0\<rparr>"

text \<open>
  What becomes of each entry of a batch. The \<open>k\<close>-th reading of the clock is the next one:
  an entry that parses takes one reading for today's date and the following one for the
  comparison with now; an entry that does not parse takes none.
\<close>

datatype entry_kind = Unparsable | AlreadyPassed | Upcoming

fun classify :: "env \<Rightarrow> pystr list \<Rightarrow> nat \<Rightarrow> entry_kind list" where
  "classify env [] k = []"
| "classify env (t # ts) k =
     (case strptime (digit_zeros env) t of
        Inl e \<Rightarrow> Unparsable # classify env ts k
      | Inr dt \<Rightarrow>
          (if time_lt (time_of dt) (time_of (clock env (k + 1))) then AlreadyPassed else Upcoming)
            # classify env ts (k + 2))"

text \<open>The results of the tasks that a batch launches, in the order of their calls of
  \<open>urlopen\<close>: a response, or the exception raised in the task.\<close>

definition outcomes :: "env \<Rightarrow> pystr list \<Rightarrow> world \<Rightarrow> (exn + response) list" where
  "outcomes env timestamps w =
     (case intake env timestamps (locals0, w) of
        Inl e \<Rightarrow> []
      | Inr (l, w1) \<Rightarrow> map snd (fst (run_tasks env (tasks l) w1)))"

definition raised :: "exn + response \<Rightarrow> bool" where
  "raised r = (case r of Inl e \<Rightarrow> True | Inr c \<Rightarrow> False)"

text \<open>The task that the loop creates for a parsed \<open>dt\<close>, the world being \<open>w\<close> when the
  entry is taken up.\<close>

definition new_task :: "env \<Rightarrow> world \<Rightarrow> datetime \<Rightarrow> task" where
  "new_task env w dt =
     \<lparr>task_dt = dt\<lparr>year := year (clock env (reads w)), month := month (clock env (reads w)),
                    day := day (clock env (reads w))\<rparr>,
      task_url = wait_and_request_url_default,
      task_timeout = wait_and_request_timeout_default\<rparr>"

subsection \<open>Example runs\<close>

definition noon :: datetime where
  "noon = \<lparr>year = 2024, month = 3, day = 15, hour = 12, minute = 0, second = 0,
           microsecond = 0\<rparr>"

text \<open>The clock stands at noon; every request is answered with 200 after a quarter of a
  second. Of the decimal digits above 128 the Arabic-Indic (U+0660), the Devanagari
  (U+0966) and the fullwidth ones (U+FF10) are there.\<close>

definition env_noon :: env where
  "env_noon = \<lparr>clock = (\<lambda>k. noon),
               urlopen = (\<lambda>k r. Inr \<lparr>status = 200, url = req_url r\<rparr>),
               latency = (\<lambda>k. 250000),
               digit_zeros = [1632, 2406, 65296]\<rparr>"

text \<open>The same, but the first request is refused with 429.\<close>

definition env_429 :: env where
  "env_429 = env_noon\<lparr>urlopen :=
     (\<lambda>k r. if k = 0 then Inl (HTTPError 429 ''Too Many Requests'')
            else Inr \<lparr>status = 200, url = req_url r\<rparr>)\<rparr>"

text \<open>The clock stands at noon; the request that is made first and sent at noon is
  refused, every other is answered.\<close>

definition env_first_at_noon :: env where
  "env_first_at_noon = env_noon\<lparr>urlopen :=
     (\<lambda>k r. if k = 0 \<and> req_sent_at r = instant_of noon
            then Inl (HTTPError 429 ''Too Many Requests'')
            else Inr \<lparr>status = 200, url = req_url r\<rparr>)\<rparr>"

section \<open>Properties of the parser's regular expression\<close>

lemma decimal_ascii: "ascii_digit c \<Longrightarrow> decimal zeros c = Some (c - 48)"
  by (simp add: ascii_digit_def decimal_def)

lemma decimal_le: "decimal zeros c = Some v \<Longrightarrow> v \<le> 9"
proof (cases "c < 128")
  case True
  assume "decimal zeros c = Some v"
  with True show ?thesis by (auto simp: decimal_def split: if_splits)
next
  case False
  assume d: "decimal zeros c = Some v"
  with False obtain z zs where f: "filter (\<lambda>z. z \<le> c \<and> c < z + 10) zeros = z # zs" and v: "v = c - z"
    by (auto simp: decimal_def split: list.splits)
  from f have "z \<in> set (filter (\<lambda>z. z \<le> c \<and> c < z + 10) zeros)" by simp
  then have "z \<le> c \<and> c < z + 10" by simp
  with v show ?thesis by arith
qed

lemma is_decimal_ascii: "ascii_digit c \<Longrightarrow> is_decimal zeros c"
  by (simp add: is_decimal_def decimal_ascii)

lemma digit_val_ascii: "ascii_digit c \<Longrightarrow> digit_val zeros c = c - 48"
  by (simp add: digit_val_def decimal_ascii)

lemma digit_val_le: "digit_val zeros c \<le> 9"
  by (cases "decimal zeros c") (auto simp: digit_val_def dest: decimal_le)

lemma not_decimal_colon: "\<not> is_decimal zeros 58"
  by (simp add: is_decimal_def decimal_def)

lemma decimal_not_colon: "is_decimal zeros b \<Longrightarrow> b \<noteq> 58"
  using not_decimal_colon by auto

lemma value_of_1: "value_of zeros [a] = digit_val zeros a"
  by (simp add: value_of_def)

lemma value_of_2: "value_of zeros [a, b] = 10 * digit_val zeros a + digit_val zeros b"
  by (simp add: value_of_def)

lemma in_2: "in_chars ''2'' c = (c = 50)"
  by (auto simp: in_chars_def ascii_def code_point_def)
lemma in_6: "in_chars ''6'' c = (c = 54)"
  by (auto simp: in_chars_def ascii_def code_point_def)
lemma in_01: "in_chars ''01'' c = (c = 48 \<or> c = 49)"
  by (auto simp: in_chars_def ascii_def code_point_def)
lemma in_0123: "in_chars ''0123'' c = (48 \<le> c \<and> c \<le> 51)"
  by (auto simp: in_chars_def ascii_def code_point_def)
lemma in_012345: "in_chars ''012345'' c = (48 \<le> c \<and> c \<le> 53)"
  by (auto simp: in_chars_def ascii_def code_point_def)
lemma in_colon: "in_chars '':'' c = (c = 58)"
  by (auto simp: in_chars_def ascii_def code_point_def)

lemmas in_class = in_2 in_6 in_01 in_0123 in_012345 in_colon

lemma cls_Nil: "cls P [] = []" by (simp add: cls_def)
lemma cls_Cons: "cls P (c # r) = (if P c then [([c], r)] else [])" by (simp add: cls_def)

lemma re_H_Nil: "re_H zeros [] = []" by (simp add: re_H_def alt_def sq_def cls_Nil)
lemma re_H_1: "re_H zeros [a] = (if is_decimal zeros a then [([a], [])] else [])"
  by (simp add: re_H_def alt_def sq_def cls_Nil cls_Cons)
lemma re_H_2: "re_H zeros (a # b # r) =
   (if a = 50 \<and> 48 \<le> b \<and> b \<le> 51 then [([a, b], r)] else []) @
   (if (a = 48 \<or> a = 49) \<and> is_decimal zeros b then [([a, b], r)] else []) @
   (if is_decimal zeros a then [([a], b # r)] else [])"
  by (simp add: re_H_def alt_def sq_def cls_Nil cls_Cons in_class)

lemma re_M_Nil: "re_M zeros [] = []" by (simp add: re_M_def alt_def sq_def cls_Nil)
lemma re_M_1: "re_M zeros [a] = (if is_decimal zeros a then [([a], [])] else [])"
  by (simp add: re_M_def alt_def sq_def cls_Nil cls_Cons)
lemma re_M_2: "re_M zeros (a # b # r) =
   (if 48 \<le> a \<and> a \<le> 53 \<and> is_decimal zeros b then [([a, b], r)] else []) @
   (if is_decimal zeros a then [([a], b # r)] else [])"
  by (simp add: re_M_def alt_def sq_def cls_Nil cls_Cons in_class)

lemma re_S_Nil: "re_S zeros [] = []" by (simp add: re_S_def alt_def sq_def cls_Nil)
lemma re_S_1: "re_S zeros [a] = (if is_decimal zeros a then [([a], [])] else [])"
  by (simp add: re_S_def alt_def sq_def cls_Nil cls_Cons)
lemma re_S_2: "re_S zeros (a # b # r) =
   (if a = 54 \<and> (b = 48 \<or> b = 49) then [([a, b], r)] else []) @
   (if 48 \<le> a \<and> a \<le> 53 \<and> is_decimal zeros b then [([a, b], r)] else []) @
   (if is_decimal zeros a then [([a], b # r)] else [])"
  by (simp add: re_S_def alt_def sq_def cls_Nil cls_Cons in_class)

lemma colon_Nil: "colon [] = []" by (simp add: colon_def cls_Nil)
lemma colon_Cons: "colon (c # r) = (if c = 58 then [([c], r)] else [])"
  by (simp add: colon_def cls_Cons in_colon)

lemma field_cases:
  "field zeros d = ((\<exists>c. d = [c] \<and> is_decimal zeros c)
                    \<or> (\<exists>a b. d = [a, b] \<and> ascii_digit a \<and> is_decimal zeros b))"
  by (auto simp: field_def split: list.splits)

text \<open>What a group matches is a field, in range as far as the expression checks.\<close>

lemma re_H_mem:
  assumes "(h, r) \<in> set (re_H zeros cs)"
  shows "cs = h @ r \<and> field zeros h \<and> value_of zeros h \<le> 23
         \<and> (value_of zeros h < 20 \<or> list_all ascii_digit h)"
proof (cases cs)
  case Nil
  with assms show ?thesis by (simp add: re_H_Nil)
next
  case (Cons a cs')
  show ?thesis
  proof (cases cs')
    case Nil
    with Cons assms show ?thesis
      using digit_val_le [of zeros a]
      by (auto simp: re_H_1 field_def value_of_1 split: if_splits)
  next
    case (Cons b r')
    with \<open>cs = a # cs'\<close> assms show ?thesis
      using digit_val_le [of zeros a] digit_val_le [of zeros b]
      by (auto simp: re_H_2 field_def value_of_1 value_of_2 ascii_digit_def digit_val_ascii
            is_decimal_ascii split: if_splits)
  qed
qed

lemma re_M_mem:
  assumes "(h, r) \<in> set (re_M zeros cs)"
  shows "cs = h @ r \<and> field zeros h \<and> value_of zeros h \<le> 59"
proof (cases cs)
  case Nil
  with assms show ?thesis by (simp add: re_M_Nil)
next
  case (Cons a cs')
  show ?thesis
  proof (cases cs')
    case Nil
    with Cons assms show ?thesis
      using digit_val_le [of zeros a]
      by (auto simp: re_M_1 field_def value_of_1 split: if_splits)
  next
    case (Cons b r')
    with \<open>cs = a # cs'\<close> assms show ?thesis
      using digit_val_le [of zeros a] digit_val_le [of zeros b]
      by (auto simp: re_M_2 field_def value_of_1 value_of_2 ascii_digit_def digit_val_ascii
            split: if_splits)
  qed
qed

lemma re_S_mem:
  assumes "(h, r) \<in> set (re_S zeros cs)"
  shows "cs = h @ r \<and> field zeros h"
proof (cases cs)
  case Nil
  with assms show ?thesis by (simp add: re_S_Nil)
next
  case (Cons a cs')
  show ?thesis
  proof (cases cs')
    case Nil
    with Cons assms show ?thesis
      by (auto simp: re_S_1 field_def split: if_splits)
  next
    case (Cons b r')
    with \<open>cs = a # cs'\<close> assms show ?thesis
      by (auto simp: re_S_2 field_def ascii_digit_def is_decimal_ascii split: if_splits)
  qed
qed

lemma colon_mem: "(c, r) \<in> set (colon cs) \<Longrightarrow> cs = 58 # r"
  by (cases cs) (auto simp: colon_Nil colon_Cons split: if_splits)

lemma re_HMS_mem:
  "(h, m, s, r) \<in> set (re_HMS zeros cs) \<Longrightarrow>
     cs = h @ 58 # m @ 58 # s @ r \<and> field zeros h \<and> field zeros m \<and> field zeros s
     \<and> value_of zeros h \<le> 23 \<and> value_of zeros m \<le> 59
     \<and> (value_of zeros h < 20 \<or> list_all ascii_digit h)"
  unfolding re_HMS_def
  by (auto dest!: re_H_mem re_M_mem re_S_mem colon_mem)

text \<open>A field in range, followed by a colon, is matched by its group in one way.\<close>

lemma H_then_colon:
  assumes "field zeros h" "value_of zeros h \<le> 23"
    and "value_of zeros h < 20 \<or> list_all ascii_digit h"
  shows "concat (map (\<lambda>(a, r1). concat (map (\<lambda>(c1, r2). F a r2) (colon r1)))
           (re_H zeros (h @ 58 # r))) = F h r"
proof -
  from assms(1) consider a where "h = [a]" "is_decimal zeros a"
    | a b where "h = [a, b]" "ascii_digit a" "is_decimal zeros b"
    by (auto simp: field_cases)
  then show ?thesis
  proof cases
    case 1
    then show ?thesis by (simp add: re_H_2 not_decimal_colon colon_Cons)
  next
    case 2
    have b: "digit_val zeros b \<le> 9" by (rule digit_val_le)
    from 2 assms(2) have v: "10 * (a - 48) + digit_val zeros b \<le> 23"
      by (simp add: value_of_2 digit_val_ascii)
    from 2 assms(3) have w: "10 * (a - 48) + digit_val zeros b < 20
        \<or> (ascii_digit b \<and> digit_val zeros b = b - 48)"
      by (auto simp: value_of_2 digit_val_ascii)
    from 2(2) v w b have
      "(a = 50 \<and> 48 \<le> b \<and> b \<le> 51) \<noteq> (a = 48 \<or> a = 49)"
      by (auto simp: ascii_digit_def)
    with 2 show ?thesis
      by (auto simp add: re_H_2 colon_Cons decimal_not_colon is_decimal_ascii)
  qed
qed

lemma M_then_colon:
  assumes "field zeros h" "value_of zeros h \<le> 59"
  shows "concat (map (\<lambda>(a, r1). concat (map (\<lambda>(c1, r2). F a r2) (colon r1)))
           (re_M zeros (h @ 58 # r))) = F h r"
proof -
  from assms(1) consider a where "h = [a]" "is_decimal zeros a"
    | a b where "h = [a, b]" "ascii_digit a" "is_decimal zeros b"
    by (auto simp: field_cases)
  then show ?thesis
  proof cases
    case 1
    then show ?thesis by (simp add: re_M_2 not_decimal_colon colon_Cons)
  next
    case 2
    with assms(2) have "48 \<le> a \<and> a \<le> 53"
      by (auto simp: value_of_2 digit_val_ascii ascii_digit_def)
    with 2 show ?thesis
      by (auto simp add: re_M_2 colon_Cons decimal_not_colon is_decimal_ascii)
  qed
qed

lemma S_head:
  assumes "field zeros s" "value_of zeros s \<le> 59"
  shows "\<exists>tl. re_S zeros s = (s, []) # tl"
proof -
  from assms(1) consider a where "s = [a]" "is_decimal zeros a"
    | a b where "s = [a, b]" "ascii_digit a" "is_decimal zeros b"
    by (auto simp: field_cases)
  then show ?thesis
  proof cases
    case 1
    then show ?thesis by (simp add: re_S_1)
  next
    case 2
    with assms(2) have "48 \<le> a \<and> a \<le> 53"
      by (auto simp: value_of_2 digit_val_ascii ascii_digit_def)
    with 2 show ?thesis by (auto simp add: re_S_2)
  qed
qed

lemma re_HMS_head:
  assumes "field zeros h" "value_of zeros h \<le> 23"
    and "value_of zeros h < 20 \<or> list_all ascii_digit h"
    and "field zeros m" "value_of zeros m \<le> 59" "field zeros s" "value_of zeros s \<le> 59"
  shows "\<exists>tl. re_HMS zeros (h @ 58 # m @ 58 # s) = (h, m, s, []) # tl"
proof -
  from S_head [OF assms(6,7)] obtain tl where "re_S zeros s = (s, []) # tl" ..
  then show ?thesis
    unfolding re_HMS_def
    by (simp add: H_then_colon [OF assms(1,2,3)] M_then_colon [OF assms(4,5)])
qed

lemma int_py_field: "field zeros d \<Longrightarrow> int_py zeros d = Inr (value_of zeros d)"
  by (auto simp: field_cases int_py_def is_decimal_ascii)

lemma strptime_ok:
  assumes "field zeros h" "value_of zeros h \<le> 23"
    and "value_of zeros h < 20 \<or> list_all ascii_digit h"
    and "field zeros m" "value_of zeros m \<le> 59" "field zeros s" "value_of zeros s \<le> 59"
  shows "strptime zeros (h @ 58 # m @ 58 # s) =
           Inr \<lparr>year = 1900, month = 1, day = 1, hour = value_of zeros h,
                 minute = value_of zeros m, second = value_of zeros s, microsecond = 0\<rparr>"
proof -
  from re_HMS_head [OF assms] obtain tl
    where "re_HMS zeros (h @ 58 # m @ 58 # s) = (h, m, s, []) # tl" ..
  then show ?thesis using assms
    by (simp add: strptime_def datetime_new_def int_py_field)
qed

lemma strptime_inv:
  assumes "strptime zeros cs = Inr dt"
  shows "\<exists>h m s. cs = h @ 58 # m @ 58 # s \<and> field zeros h \<and> field zeros m \<and> field zeros s
           \<and> value_of zeros h \<le> 23 \<and> value_of zeros m \<le> 59 \<and> value_of zeros s \<le> 59
           \<and> (value_of zeros h < 20 \<or> list_all ascii_digit h)
           \<and> dt = \<lparr>year = 1900, month = 1, day = 1, hour = value_of zeros h,
                    minute = value_of zeros m, second = value_of zeros s, microsecond = 0\<rparr>"
proof (cases "re_HMS zeros cs")
  case Nil
  with assms show ?thesis by (simp add: strptime_def)
next
  case (Cons x xs)
  obtain h m s r where x: "x = (h, m, s, r)" by (cases x) auto
  with Cons have "(h, m, s, r) \<in> set (re_HMS zeros cs)" by simp
  from re_HMS_mem [OF this] have
    shape: "cs = h @ 58 # m @ 58 # s @ r" "field zeros h" "field zeros m" "field zeros s"
      "value_of zeros h \<le> 23" "value_of zeros m \<le> 59"
      "value_of zeros h < 20 \<or> list_all ascii_digit h" by simp_all
  from assms Cons x shape(2-4) have "r = []" "value_of zeros s \<le> 59"
    "dt = \<lparr>year = 1900, month = 1, day = 1, hour = value_of zeros h,
           minute = value_of zeros m, second = value_of zeros s, microsecond = 0\<rparr>"
    by (auto simp: strptime_def datetime_new_def int_py_field split: if_splits)
  with shape show ?thesis by auto
qed

lemma strptime_err: "strptime zeros cs = Inl e \<Longrightarrow> e = ValueError"
  by (auto simp: strptime_def datetime_new_def int_py_def split: list.splits if_splits sum.splits)

lemma split_on_join:
  "split_on c s = h # rest \<Longrightarrow> s = h @ concat (map ((#) c) rest)"
proof (induction s arbitrary: h rest)
  case Nil
  then show ?case by simp
next
  case (Cons x xs)
  obtain p ps where sp: "split_on c xs = p # ps"
    by (cases "split_on c xs"; cases xs) (auto split: if_splits list.splits)
  from Cons.IH [OF sp] have xs: "xs = p @ concat (map ((#) c) ps)" .
  show ?case
  proof (cases "x = c")
    case True
    with Cons.prems sp have "h = []" "rest = p # ps" by simp_all
    with True show ?thesis using xs by simp
  next
    case False
    with Cons.prems sp have "h = x # p" "rest = ps" by simp_all
    then show ?thesis using xs by simp
  qed
qed

lemma split_on_prefix: "c \<notin> set h \<Longrightarrow> split_on c (h @ c # r) = h # split_on c r"
  by (induction h) auto

lemma split_on_whole: "c \<notin> set h \<Longrightarrow> split_on c h = [h]"
  by (induction h) auto

lemma colon_code: "code_point CHR '':'' = 58"
  by (simp add: code_point_def)

lemma field_no_colon: "field zeros h \<Longrightarrow> 58 \<notin> set h"
  using not_decimal_colon [of zeros] by (auto simp: field_cases ascii_digit_def)

lemma well_formed_split:
  assumes "well_formed zeros s"
  obtains h m sec where "split_on 58 s = [h, m, sec]" "s = h @ 58 # m @ 58 # sec"
    "field zeros h" "value_of zeros h \<le> 23" "value_of zeros h < 20 \<or> list_all ascii_digit h"
    "field zeros m" "value_of zeros m \<le> 59" "field zeros sec" "value_of zeros sec \<le> 59"
proof -
  from assms obtain h m sec where sp: "split_on 58 s = [h, m, sec]"
    and f: "field zeros h" "value_of zeros h \<le> 23"
      "value_of zeros h < 20 \<or> list_all ascii_digit h"
      "field zeros m" "value_of zeros m \<le> 59" "field zeros sec" "value_of zeros sec \<le> 59"
    by (auto simp: well_formed_def colon_code split: list.splits)
  from split_on_join [OF sp] have "s = h @ 58 # m @ 58 # sec" by simp
  with sp f show ?thesis using that by blast
qed

lemma split_on_fields:
  assumes "field zeros h" "field zeros m" "field zeros sec"
  shows "split_on 58 (h @ 58 # m @ 58 # sec) = [h, m, sec]"
  using assms by (simp add: split_on_prefix split_on_whole field_no_colon)

lemma fields_well_formed:
  assumes "field zeros h" "value_of zeros h \<le> 23"
    and "value_of zeros h < 20 \<or> list_all ascii_digit h"
    and "field zeros m" "value_of zeros m \<le> 59" "field zeros sec" "value_of zeros sec \<le> 59"
  shows "well_formed zeros (h @ 58 # m @ 58 # sec)"
  using assms by (simp add: well_formed_def colon_code split_on_fields)

lemma strptime_well_formed:
  "strptime zeros s =
     (if well_formed zeros s
      then Inr \<lparr>year = 1900, month = 1, day = 1, hour = field_value zeros 0 s,
                minute = field_value zeros 1 s, second = field_value zeros 2 s,
                microsecond = 0\<rparr>
      else Inl ValueError)"
proof (cases "well_formed zeros s")
  case True
  then obtain h m sec where sp: "split_on 58 s = [h, m, sec]"
    and s: "s = h @ 58 # m @ 58 # sec"
    and f: "field zeros h" "value_of zeros h \<le> 23"
      "value_of zeros h < 20 \<or> list_all ascii_digit h"
      "field zeros m" "value_of zeros m \<le> 59" "field zeros sec" "value_of zeros sec \<le> 59"
    by (rule well_formed_split)
  from sp have "field_value zeros 0 s = value_of zeros h" "field_value zeros 1 s = value_of zeros m"
    "field_value zeros 2 s = value_of zeros sec"
    by (simp_all add: field_value_def colon_code)
  with True strptime_ok [OF f] s show ?thesis by simp
next
  case False
  show ?thesis
  proof (cases "strptime zeros s")
    case (Inl e)
    with False strptime_err [OF Inl] show ?thesis by simp
  next
    case (Inr dt)
    from strptime_inv [OF Inr] obtain h m sec where
      "s = h @ 58 # m @ 58 # sec" "field zeros h" "value_of zeros h \<le> 23"
      "value_of zeros h < 20 \<or> list_all ascii_digit h"
      "field zeros m" "value_of zeros m \<le> 59" "field zeros sec" "value_of zeros sec \<le> 59"
      by blast
    with fields_well_formed have "well_formed zeros s" by blast
    with False show ?thesis by simp
  qed
qed


section \<open>Properties of the scheduler's loops\<close>

lemma time_of_replace [simp]:
  "time_of (dt\<lparr>year := y, month := m, day := d\<rparr>) = time_of dt"
  by (simp add: time_of_def)

lemma intake_body_eq:
  "intake_body env t (l, w) =
     (case strptime (digit_zeros env) t of
        Inl e \<Rightarrow> Inr (l\<lparr>skips := skips l + 1\<rparr>, w)
      | Inr dt \<Rightarrow>
          if time_lt (time_of dt) (time_of (clock env (reads w + 1)))
          then Inr (l\<lparr>skips := skips l + 1\<rparr>, w\<lparr>reads := reads w + 2\<rparr>)
          else Inr (l\<lparr>tasks := tasks l @ [new_task env w dt], passes := passes l + 1\<rparr>,
                    w\<lparr>reads := reads w + 2\<rparr>))"
proof (cases "strptime (digit_zeros env) t")
  case (Inl e)
  then have "e = ValueError" by (rule strptime_err)
  with Inl show ?thesis by (simp add: intake_body_def parse_timestring_def)
next
  case (Inr dt)
  then show ?thesis
    by (simp add: intake_body_def parse_timestring_def datetime_today_def datetime_now_def
          new_task_def Let_def)
qed

lemma intake_append:
  "intake env (xs @ ys) lw =
     (case intake env xs lw of Inl e \<Rightarrow> Inl e | Inr lw1 \<Rightarrow> intake env ys lw1)"
  by (induction xs arbitrary: lw) (auto split: sum.splits)

lemma count_kinds:
  "count_list ks Unparsable + count_list ks AlreadyPassed + count_list ks Upcoming = length ks"
proof (induction ks)
  case Nil
  show ?case by simp
next
  case (Cons k ks)
  then show ?case by (cases k) simp_all
qed

lemma length_classify: "length (classify env ts k) = length ts"
  by (induction ts arbitrary: k) (auto split: sum.splits)

lemma intake_counts:
  "\<exists>l w1. intake env ts (l0, w0) = Inr (l, w1)
     \<and> passes l = passes l0 + count_list (classify env ts (reads w0)) Upcoming
     \<and> skips l = skips l0 + count_list (classify env ts (reads w0)) Unparsable
                  + count_list (classify env ts (reads w0)) AlreadyPassed
     \<and> length (tasks l) = length (tasks l0) + count_list (classify env ts (reads w0)) Upcoming
     \<and> requests w1 = requests w0 \<and> instant w1 = instant w0"
proof (induction ts arbitrary: l0 w0)
  case Nil
  show ?case by simp
next
  case (Cons t ts)
  show ?case
  proof (cases "strptime (digit_zeros env) t")
    case (Inl e)
    from Cons.IH [of "l0\<lparr>skips := skips l0 + 1\<rparr>" w0] Inl show ?thesis
      by (auto simp: intake_body_eq)
  next
    case (Inr dt)
    show ?thesis
    proof (cases "time_lt (time_of dt) (time_of (clock env (reads w0 + 1)))")
      case True
      from Cons.IH [of "l0\<lparr>skips := skips l0 + 1\<rparr>" "w0\<lparr>reads := reads w0 + 2\<rparr>"] Inr True
      show ?thesis by (auto simp: intake_body_eq)
    next
      case False
      from Cons.IH [of "l0\<lparr>tasks := tasks l0 @ [new_task env w0 dt], passes := passes l0 + 1\<rparr>"
                       "w0\<lparr>reads := reads w0 + 2\<rparr>"] Inr False
      show ?thesis by (auto simp: intake_body_eq)
    qed
  qed
qed

lemma wait_and_request_eq:
  "wait_and_request env dt u t w =
     (let now = clock env (reads w);
          sent = instant_of now + asyncio_sleep (datetime_sub dt now);
          r = \<lparr>req_url = u, req_user_agent = ''Mozilla/5.0'', req_timeout = t, req_sent_at = sent\<rparr>
      in (urlopen env (length (requests w)) r,
          w\<lparr>reads := reads w + 1,
            instant := sent + int (latency env (length (requests w))),
            requests := requests w @ [r]\<rparr>))"
  by (cases "urlopen env (length (requests w))
        \<lparr>req_url = u, req_user_agent = ''Mozilla/5.0'', req_timeout = t,
         req_sent_at = instant_of (clock env (reads w))
           + asyncio_sleep (datetime_sub dt (clock env (reads w)))\<rparr>")
     (simp_all add: wait_and_request_def wait_begin_def do_request_def datetime_now_def Let_def)

lemma wait_begin_eq:
  "wait_begin env dt w =
     (instant_of (clock env (reads w)) + asyncio_sleep (datetime_sub dt (clock env (reads w))),
      w\<lparr>reads := reads w + 1\<rparr>)"
  by (simp add: wait_begin_def datetime_now_def)

lemma do_request_eq:
  "do_request env u t w =
     (urlopen env (length (requests w))
        \<lparr>req_url = u, req_user_agent = ''Mozilla/5.0'', req_timeout = t, req_sent_at = instant w\<rparr>,
      w\<lparr>requests := requests w @
           [\<lparr>req_url = u, req_user_agent = ''Mozilla/5.0'', req_timeout = t,
             req_sent_at = instant w\<rparr>],
        instant := instant w + int (latency env (length (requests w)))\<rparr>)"
  by (cases "urlopen env (length (requests w))
        \<lparr>req_url = u, req_user_agent = ''Mozilla/5.0'', req_timeout = t, req_sent_at = instant w\<rparr>")
     (simp_all add: do_request_def Let_def)

lemma begin_tasks_tasks: "map snd (fst (begin_tasks env ts w)) = ts"
  by (induction ts arbitrary: w) (simp_all add: Let_def case_prod_beta)

lemma requests_begin_tasks: "requests (snd (begin_tasks env ts w)) = requests w"
  by (induction ts arbitrary: w) (simp_all add: Let_def case_prod_beta wait_begin_eq)

lemma length_resume_tasks: "length (fst (resume_tasks env ds w)) = length ds"
  by (induction ds arbitrary: w) (simp_all add: Let_def case_prod_beta)

lemma requests_resume_tasks:
  "length (requests (snd (resume_tasks env ds w))) = length (requests w) + length ds"
  by (induction ds arbitrary: w) (simp_all add: Let_def case_prod_beta do_request_eq)

lemma length_begin_tasks: "length (fst (begin_tasks env ts w)) = length ts"
  using begin_tasks_tasks [of env ts w] by (metis length_map)

lemma length_run_tasks: "length (fst (run_tasks env ts w)) = length ts"
  by (simp add: run_tasks_def case_prod_beta length_resume_tasks length_begin_tasks)

lemma requests_run_tasks:
  "length (requests (snd (run_tasks env ts w))) = length (requests w) + length ts"
  by (simp add: run_tasks_def case_prod_beta requests_resume_tasks requests_begin_tasks
        length_begin_tasks)

lemma drain_Inr: "drain rs n = Inr m \<Longrightarrow> m = n + length (filter raised rs)"
proof (induction rs n rule: drain.induct)
  case (1 errors)
  then show ?case by simp
next
  case (2 result rest errors)
  then show ?case by (simp add: raised_def)
next
  case (3 e rest errors)
  then show ?case by (auto simp: raised_def split: if_splits)
qed

lemma drain_ok:
  "\<forall>e. Inl e \<in> set rs \<longrightarrow> is_Exception e \<Longrightarrow> drain rs n = Inr (n + length (filter raised rs))"
proof (induction rs n rule: drain.induct)
  case (1 errors)
  then show ?case by simp
next
  case (2 result rest errors)
  then show ?case by (simp add: raised_def)
next
  case (3 e rest errors)
  then show ?case by (auto simp: raised_def)
qed

text \<open>What neither clause handles ends the loop and leaves \<open>start\<close>.\<close>

lemma drain_not_Exception: "\<not> is_Exception e \<Longrightarrow> drain (Inl e # rs) n = Inl e"
  by (cases e) simp_all

lemma set_as_completed: "set (as_completed fin) = set (map snd fin)"
  by (simp add: as_completed_def)

lemma raised_as_completed:
  "length (filter raised (as_completed fin)) = length (filter raised (map snd fin))"
  by (simp add: as_completed_def filter_map filter_sort)

lemma intake_locals0:
  "\<exists>l w1. intake env ts (locals0, w) = Inr (l, w1)
     \<and> passes l = count_list (classify env ts (reads w)) Upcoming
     \<and> skips l = count_list (classify env ts (reads w)) Unparsable
                  + count_list (classify env ts (reads w)) AlreadyPassed
     \<and> length (tasks l) = passes l
     \<and> requests w1 = requests w"
  using intake_counts [of env ts locals0 w] by (auto simp: locals0_def)

lemma start_Inr:
  assumes "start env ts w = Inr ((p, s, e), w')"
  shows "\<exists>l w1 fin w2. intake env ts (locals0, w) = Inr (l, w1)
           \<and> run_tasks env (tasks l) w1 = (fin, w2)
           \<and> w' = w2\<lparr>instant := last_finish fin w2\<rparr>
           \<and> p = passes l \<and> s = skips l
           \<and> drain (as_completed fin) 0 = Inr e"
  using assms by (auto simp: start_def Let_def split: sum.splits prod.splits)

lemma start_counts:
  assumes "start env ts w = Inr ((p, s, e), w')"
  shows "p = length (outcomes env ts w)"
    and "e = length (filter raised (outcomes env ts w))"
    and "p = count_list (classify env ts (reads w)) Upcoming"
    and "s = count_list (classify env ts (reads w)) Unparsable
             + count_list (classify env ts (reads w)) AlreadyPassed"
    and "length (requests w') = length (requests w) + p"
proof -
  from start_Inr [OF assms] obtain l w1 fin w2 where
    i: "intake env ts (locals0, w) = Inr (l, w1)" and r: "run_tasks env (tasks l) w1 = (fin, w2)"
    and w': "w' = w2\<lparr>instant := last_finish fin w2\<rparr>"
    and ps: "p = passes l" "s = skips l" and d: "drain (as_completed fin) 0 = Inr e" by blast
  from intake_locals0 [of env ts w] i have
    c: "passes l = count_list (classify env ts (reads w)) Upcoming"
       "skips l = count_list (classify env ts (reads w)) Unparsable
                  + count_list (classify env ts (reads w)) AlreadyPassed"
       "length (tasks l) = passes l" "requests w1 = requests w" by auto
  have o: "outcomes env ts w = map snd fin" using i r by (simp add: outcomes_def)
  from length_run_tasks [of env "tasks l" w1] r have lf: "length fin = length (tasks l)" by simp
  show "p = length (outcomes env ts w)" using o lf c ps by simp
  show "e = length (filter raised (outcomes env ts w))"
    using drain_Inr [OF d] o by (simp add: raised_as_completed)
  show "p = count_list (classify env ts (reads w)) Upcoming" using ps c by simp
  show "s = count_list (classify env ts (reads w)) Unparsable
             + count_list (classify env ts (reads w)) AlreadyPassed" using ps c by simp
  from requests_run_tasks [of env "tasks l" w1] r c ps w'
  show "length (requests w') = length (requests w) + p" by simp
qed

lemma start_ok:
  assumes "\<forall>e. Inl e \<in> set (outcomes env ts w) \<longrightarrow> is_Exception e"
  shows "\<exists>p s w'. start env ts w = Inr ((p, s, length (filter raised (outcomes env ts w))), w')"
proof -
  from intake_locals0 [of env ts w] obtain l w1 where
    i: "intake env ts (locals0, w) = Inr (l, w1)" by blast
  obtain fin w2 where r: "run_tasks env (tasks l) w1 = (fin, w2)" by (cases "run_tasks env (tasks l) w1")
  have o: "outcomes env ts w = map snd fin" using i r by (simp add: outcomes_def)
  with assms have "\<forall>e. Inl e \<in> set (as_completed fin) \<longrightarrow> is_Exception e"
    by (simp add: set_as_completed)
  from drain_ok [OF this, of 0]
  have "drain (as_completed fin) 0 = Inr (length (filter raised (outcomes env ts w)))"
    by (simp add: raised_as_completed o)
  with i r show ?thesis by (simp add: start_def)
qed


text \<open>Every task is created with the default URL, and a task sends its request to the URL it
  was created with: whatever the command line, the requests of a run go to the initial
  \<open>CONFIG.URL\<close>.\<close>

lemma intake_task_urls:
  assumes "intake env ts (l0, w0) = Inr (l, w1)"
    and "\<forall>t \<in> set (tasks l0). task_url t = wait_and_request_url_default"
  shows "\<forall>t \<in> set (tasks l). task_url t = wait_and_request_url_default"
  using assms
proof (induction ts arbitrary: l0 w0)
  case Nil
  then show ?case by simp
next
  case (Cons t ts)
  from Cons.prems(1) obtain l' w' where
    b: "intake_body env t (l0, w0) = Inr (l', w')" and r: "intake env ts (l', w') = Inr (l, w1)"
    by (auto split: sum.splits)
  from b Cons.prems(2) have "\<forall>t \<in> set (tasks l'). task_url t = wait_and_request_url_default"
    by (auto simp: intake_body_eq new_task_def split: sum.splits if_splits)
  with Cons.IH [OF r] show ?case by blast
qed

lemma resume_tasks_urls:
  assumes "\<forall>d \<in> set ds. task_url (snd d) = u" and "\<forall>q \<in> set (requests w). req_url q = u"
  shows "\<forall>q \<in> set (requests (snd (resume_tasks env ds w))). req_url q = u"
  using assms
proof (induction ds arbitrary: w)
  case Nil
  then show ?case by simp
next
  case (Cons d ds)
  let ?w1 = "snd (do_request env (task_url (snd d)) (task_timeout (snd d)) (w\<lparr>instant := fst d\<rparr>))"
  have "\<forall>q \<in> set (requests ?w1). req_url q = u"
    using Cons.prems by (simp add: do_request_eq)
  with Cons.IH [of ?w1] Cons.prems(1)
  show ?case by (simp add: case_prod_beta Let_def)
qed

lemma run_tasks_urls:
  assumes "\<forall>t \<in> set ts. task_url t = u" and "\<forall>q \<in> set (requests w). req_url q = u"
  shows "\<forall>q \<in> set (requests (snd (run_tasks env ts w))). req_url q = u"
proof -
  have "snd ` set (fst (begin_tasks env ts w)) = set ts"
    using begin_tasks_tasks [of env ts w] by (metis set_map)
  with assms(1) have "\<forall>d \<in> set (sort_key fst (fst (begin_tasks env ts w))). task_url (snd d) = u"
    by auto
  from resume_tasks_urls [OF this, of "snd (begin_tasks env ts w)" env] assms(2)
  show ?thesis by (simp add: run_tasks_def case_prod_beta requests_begin_tasks)
qed

lemma main_requests_url:
  assumes "main env args = Inr (r, w')" and "q \<in> set (requests w')"
  shows "req_url q = ''http://ifconfig.co/''"
proof -
  obtain p s e where r: "r = (p, s, e)" by (cases r) auto
  let ?w0 = "configure_logging env world0"
  from assms(1) r have st: "start env (fst (parse_cli args module_globals)) ?w0 = Inr ((p, s, e), w')"
    by (simp add: main_def case_prod_beta Let_def)
  from start_Inr [OF st] obtain l w1 fin w2 where
    i: "intake env (fst (parse_cli args module_globals)) (locals0, ?w0) = Inr (l, w1)"
    and rt: "run_tasks env (tasks l) w1 = (fin, w2)"
    and w': "w' = w2\<lparr>instant := last_finish fin w2\<rparr>" by blast
  from intake_task_urls [OF i] have
    u: "\<forall>t \<in> set (tasks l). task_url t = wait_and_request_url_default" by (simp add: locals0_def)
  from intake_locals0 [of env "fst (parse_cli args module_globals)" ?w0] i
  have "requests w1 = []"
    by (auto simp: world0_def configure_logging_def datetime_today_def datetime_now_def)
  with run_tasks_urls [OF u, of w1 env] rt assms(2) w'
  show ?thesis by (simp add: wait_and_request_url_default_def module_globals_def)
qed

section \<open>Strings of the strict form\<close>

lemma value_of_ascii_2:
  "ascii_digit a \<Longrightarrow> ascii_digit b \<Longrightarrow> value_of zeros [a, b] = 10 * (a - 48) + (b - 48)"
  by (simp add: value_of_2 digit_val_ascii)

lemma strict_well_formed:
  assumes "HH_MM_SS s"
  shows "well_formed zeros s = strict_in_range s"
proof -
  from assms have "length s = 8" by (simp add: HH_MM_SS_def)
  then obtain a b c d e f g h where s: "s = [a, b, c, d, e, f, g, h]"
    by (auto simp: length_Suc_conv eval_nat_numeral)
  with assms have c: "c = 58" "f = 58"
    and d: "ascii_digit a" "ascii_digit b" "ascii_digit d" "ascii_digit e" "ascii_digit g"
      "ascii_digit h"
    by (simp_all add: HH_MM_SS_def colon_code)
  have fl: "field zeros [a, b]" "field zeros [d, e]" "field zeros [g, h]"
    using d by (simp_all add: field_def is_decimal_ascii)
  have sp: "split_on 58 s = [[a, b], [d, e], [g, h]]"
    using split_on_fields [OF fl] s c by simp
  show ?thesis using d fl
    by (simp add: well_formed_def colon_code sp strict_in_range_def value_of_ascii_2)
       (simp add: s value_of_ascii_2)
qed

section \<open>The example runs, evaluated\<close>

lemmas string_eval = strptime_well_formed well_formed_def field_def colon_code ascii_def
  code_point_def is_decimal_def decimal_def field_value_def value_of_def digit_val_def
  ascii_digit_def

lemma strptime_bad_time: "strptime zeros (ascii ''bad-time'') = Inl ValueError"
  by (simp add: string_eval)

lemma strptime_115959:
  "strptime zeros (ascii ''11:59:59'') =
     Inr \<lparr>year = 1900, month = 1, day = 1, hour = 11, minute = 59, second = 59,
          microsecond = 0\<rparr>"
  by (simp add: string_eval)

lemma strptime_120000:
  "strptime zeros (ascii ''12:00:00'') =
     Inr \<lparr>year = 1900, month = 1, day = 1, hour = 12, minute = 0, second = 0,
          microsecond = 0\<rparr>"
  by (simp add: string_eval)

lemma strptime_235959:
  "strptime zeros (ascii ''23:59:59'') =
     Inr \<lparr>year = 1900, month = 1, day = 1, hour = 23, minute = 59, second = 59,
          microsecond = 0\<rparr>"
  by (simp add: string_eval)

lemmas strptime_eval = strptime_bad_time strptime_115959 strptime_120000 strptime_235959

text \<open>
  Digits above 128, with the Arabic-Indic, Devanagari and fullwidth digits in the table:
  three single Arabic-Indic digits parse; so does an hour written \<open>1\<close> and fullwidth \<open>2\<close>;
  Devanagari 12:30:00 does not, its two-digit fields beginning with a digit that is not
  one of \<open>0\<close> to \<open>9\<close>; nor does an hour written \<open>2\<close> and fullwidth \<open>3\<close>.
\<close>

lemma strptime_arabic_indic:
  "strptime [1632, 2406, 65296] [1633, 58, 1634, 58, 1635] =
     Inr \<lparr>year = 1900, month = 1, day = 1, hour = 1, minute = 2, second = 3,
          microsecond = 0\<rparr>"
  by (simp add: string_eval)

lemma strptime_fullwidth_second_digit:
  "strptime [1632, 2406, 65296] [49, 65298, 58, 48, 48, 58, 48, 48] =
     Inr \<lparr>year = 1900, month = 1, day = 1, hour = 12, minute = 0, second = 0,
          microsecond = 0\<rparr>"
  by (simp add: string_eval)

lemma strptime_devanagari:
  "strptime [1632, 2406, 65296] [2407, 2408, 58, 2409, 2406, 58, 2406, 2406] = Inl ValueError"
  by (simp add: string_eval)

lemma strptime_fullwidth_after_2:
  "strptime [1632, 2406, 65296] [50, 65299, 58, 48, 48, 58, 48, 48] = Inl ValueError"
  by (simp add: string_eval)

lemmas calendar_eval = instant_of_def toordinal_def ymd2ord_def days_before_year_def
  days_before_month_def DAYS_BEFORE_MONTH_def is_leap_def datetime_sub_def asyncio_sleep_def

lemmas run_eval = start_def locals0_def world0_def intake_body_eq strptime_eval time_of_def
  env_noon_def env_429_def env_first_at_noon_def noon_def new_task_def run_tasks_def
  wait_begin_eq do_request_eq last_finish_def Let_def calendar_eval
  as_completed_def wait_and_request_url_default_def module_globals_def
  wait_and_request_timeout_default_def

lemma start_noon_235959:
  "start env_noon [ascii ''23:59:59''] world0 =
     Inr ((1, 0, 0),
          \<lparr>reads = 3, instant = 63846230399250000,
           requests = [\<lparr>req_url = ''http://ifconfig.co/'', req_user_agent = ''Mozilla/5.0'',
                        req_timeout = 1, req_sent_at = 63846230399000000\<rparr>]\<rparr>)"
  by (simp add: run_eval)

lemma start_429_batch:
  "start env_429 [ascii ''bad-time'', ascii ''11:59:59'', ascii ''12:00:00'', ascii ''23:59:59'']
     world0 =
     Inr ((2, 2, 1),
          \<lparr>reads = 8, instant = 63846230399250000,
           requests = [\<lparr>req_url = ''http://ifconfig.co/'', req_user_agent = ''Mozilla/5.0'',
                        req_timeout = 1, req_sent_at = 63846187200000000\<rparr>,
                       \<lparr>req_url = ''http://ifconfig.co/'', req_user_agent = ''Mozilla/5.0'',
                        req_timeout = 1, req_sent_at = 63846230399000000\<rparr>]\<rparr>)"
  by (simp add: run_eval)

lemma outcomes_429_batch:
  "outcomes env_429 [ascii ''bad-time'', ascii ''11:59:59'', ascii ''12:00:00'', ascii ''23:59:59'']
     world0 =
     [Inl (HTTPError 429 ''Too Many Requests''),
      Inr \<lparr>status = 200, url = ''http://ifconfig.co/''\<rparr>]"
  by (simp add: outcomes_def run_eval)

text \<open>
  The calls of \<open>urlopen\<close> are made as the tasks fall due, not as they were launched: of the
  entries 23:59:59 and 12:00:00, taken up at noon in this order, the second sends the first
  request, at noon, and is the one refused.
\<close>

lemma start_due_order:
  "start env_first_at_noon [ascii ''23:59:59'', ascii ''12:00:00''] world0 =
     Inr ((2, 0, 1),
          \<lparr>reads = 6, instant = 63846230399250000,
           requests = [\<lparr>req_url = ''http://ifconfig.co/'', req_user_agent = ''Mozilla/5.0'',
                        req_timeout = 1, req_sent_at = 63846187200000000\<rparr>,
                       \<lparr>req_url = ''http://ifconfig.co/'', req_user_agent = ''Mozilla/5.0'',
                        req_timeout = 1, req_sent_at = 63846230399000000\<rparr>]\<rparr>)"
  by (simp add: run_eval)

lemma split_120000:
  "split_on (code_point CHR '','') (ascii ''12:00:00'') = [ascii ''12:00:00'']"
  by (simp add: ascii_def code_point_def)


section \<open>The claims\<close>

subsection \<open>The command line and the target URL\<close>

text \<open>
  Claim C1: when \<open>--url\<close> is given, every request of the run goes to that URL.

  The code does not do this. \<open>_parse_cli\<close> stores the option in \<open>CONFIG.URL\<close>, but \<open>start\<close>
  calls \<open>wait_and_request(dt)\<close> without a URL, and the default of that parameter was
  evaluated when the function was defined, to the initial \<open>'http://ifconfig.co/'\<close>. With
  \<open>--url http://example.org/\<close> and the timestamp \<open>12:00:00\<close> at noon, \<open>CONFIG.URL\<close> is the
  override and the one request of the run still goes to \<open>http://ifconfig.co/\<close>
  (as every request of every run does: lemma \<open>main_requests_url\<close>).
\<close>

theorem url_override_ignored:
  "CONFIG_URL (snd (parse_cli \<lparr>arg_timestamps = (ascii ''12:00:00''),
                               arg_url = Some ''http://example.org/''\<rparr> module_globals))
     = ''http://example.org/''
   \<and> main env_noon \<lparr>arg_timestamps = (ascii ''12:00:00''), arg_url = Some ''http://example.org/''\<rparr> =
       Inr ((1, 0, 0),
            \<lparr>reads = 4, instant = 63846187200250000,
             requests = [\<lparr>req_url = ''http://ifconfig.co/'', req_user_agent = ''Mozilla/5.0'',
                          req_timeout = 1, req_sent_at = 63846187200000000\<rparr>]\<rparr>)"
  by (simp add: main_def parse_cli_def split_120000 configure_logging_def datetime_today_def
        datetime_now_def run_eval)

subsection \<open>The time parser\<close>

text \<open>
  Claim C6, as amended: the time parser succeeds exactly on the strings made of three
  fields separated by colons, each field being one decimal digit, or two decimal digits of
  which the first is one of \<open>0\<close> to \<open>9\<close>, with the hour at most 23 and the minute and the
  second at most 59, an hour from 20 to 23 being written with \<open>0\<close> to \<open>9\<close> only; the result
  is that time of day, with microsecond 0, on the calendar day that the clock shows at the
  call. On every other string it fails with \<open>ValueError\<close> and reads no clock. A decimal
  digit is any of Unicode's, whatever the interpreter's table of them. (The claim as
  written asks for failure on every string that is not of the form \<open>HH:MM:SS\<close>; the
  library's \<open>%H\<close>, \<open>%M\<close> and \<open>%S\<close> accept a single digit too.)
\<close>

theorem parse_timestring_well_formed:
  "parse_timestring env s w =
     (if well_formed (digit_zeros env) s
      then (Inr (on_day (clock env (reads w))
                   (field_value (digit_zeros env) 0 s)
                   (field_value (digit_zeros env) 1 s)
                   (field_value (digit_zeros env) 2 s)),
            w\<lparr>reads := reads w + 1\<rparr>)
      else (Inl ValueError, w))"
  by (simp add: parse_timestring_def strptime_well_formed datetime_today_def datetime_now_def
        on_day_def)

text \<open>At the hour written \<open>1\<close> and fullwidth \<open>2\<close> (U+FF12), \<open>:00:00\<close>: the string is accepted,
  as 12:00:00 of the day.\<close>

theorem parse_timestring_well_formed_witness:
  "well_formed (digit_zeros env_noon) [49, 65298, 58, 48, 48, 58, 48, 48] \<and>
   parse_timestring env_noon [49, 65298, 58, 48, 48, 58, 48, 48] world0 =
     (Inr \<lparr>year = 2024, month = 3, day = 15, hour = 12, minute = 0, second = 0, microsecond = 0\<rparr>,
      \<lparr>reads = 1, instant = 0, requests = []\<rparr>)"
proof -
  have wf: "well_formed (digit_zeros env_noon) [49, 65298, 58, 48, 48, 58, 48, 48]"
    by (simp add: env_noon_def well_formed_def field_def colon_code is_decimal_def decimal_def
          value_of_def digit_val_def ascii_digit_def)
  with parse_timestring_well_formed [of env_noon "[49, 65298, 58, 48, 48, 58, 48, 48]" world0]
  show ?thesis
    by (simp add: field_value_def colon_code value_of_def digit_val_def decimal_def on_day_def
          env_noon_def noon_def world0_def)
qed

text \<open>The claim as written fails at \<open>1:2:3\<close>: the string is not of the form \<open>HH:MM:SS\<close>, and
  the parser returns 01:02:03 of the day.\<close>

theorem parse_timestring_counterexample:
  "\<not> HH_MM_SS (ascii ''1:2:3'') \<and>
   parse_timestring env_noon (ascii ''1:2:3'') world0 =
     (Inr \<lparr>year = 2024, month = 3, day = 15, hour = 1, minute = 2, second = 3, microsecond = 0\<rparr>,
      \<lparr>reads = 1, instant = 0, requests = []\<rparr>)"
  by (simp add: HH_MM_SS_def parse_timestring_def string_eval datetime_today_def
        datetime_now_def env_noon_def noon_def world0_def)

text \<open>Among the strings of the strict form \<open>HH:MM:SS\<close>, the parser accepts exactly those with
  fields in range, as the claim says.\<close>

lemma parse_timestring_strict:
  assumes "HH_MM_SS s"
  shows "(\<exists>dt w1. parse_timestring env s w = (Inr dt, w1)) = strict_in_range s"
  using strict_well_formed [OF assms, of "digit_zeros env"]
  by (simp add: parse_timestring_def strptime_well_formed datetime_today_def datetime_now_def)

subsection \<open>The delayed task\<close>

text \<open>
  Claim C8: a delayed task whose wait, target minus now at the start of the task, is zero
  or negative does not fail and does not wait: it goes on to the fetcher at once and calls
  it exactly once. The task then is the fetcher run at the instant of \<open>now\<close>; it sends one
  request, to the given URL, at that instant, and its result is what \<open>urlopen\<close> gives for
  that request.
\<close>

theorem due_task_fetches_at_once:
  assumes "datetime_now env w = (now, w1)"
    and "datetime_sub dt now \<le> 0"
  shows "wait_and_request env dt u timeout w =
           do_request env u timeout (w1\<lparr>instant := instant_of now\<rparr>)
     \<and> (\<exists>r. requests (snd (wait_and_request env dt u timeout w)) = requests w @ [r]
            \<and> req_url r = u \<and> req_sent_at r = instant_of now
            \<and> fst (wait_and_request env dt u timeout w) = urlopen env (length (requests w)) r)"
proof -
  define r where "r = \<lparr>req_url = u, req_user_agent = ''Mozilla/5.0'', req_timeout = timeout,
                        req_sent_at = instant_of now\<rparr>"
  from assms have 1: "wait_and_request env dt u timeout w =
           do_request env u timeout (w1\<lparr>instant := instant_of now\<rparr>)"
    by (simp add: wait_and_request_def wait_begin_def asyncio_sleep_def)
  from assms(1) have now: "clock env (reads w) = now"
    by (auto simp: datetime_now_def)
  have "wait_and_request env dt u timeout w =
          (urlopen env (length (requests w)) r,
           w\<lparr>reads := reads w + 1,
             instant := instant_of now + int (latency env (length (requests w))),
             requests := requests w @ [r]\<rparr>)"
    using now assms(2) by (simp add: wait_and_request_eq asyncio_sleep_def Let_def r_def)
  then have "requests (snd (wait_and_request env dt u timeout w)) = requests w @ [r]
            \<and> req_url r = u \<and> req_sent_at r = instant_of now
            \<and> fst (wait_and_request env dt u timeout w) = urlopen env (length (requests w)) r"
    by (simp add: r_def)
  with 1 show ?thesis by blast
qed

theorem due_task_fetches_at_once_witness:
  "datetime_now env_noon world0 = (noon, world0\<lparr>reads := 1\<rparr>)
   \<and> datetime_sub (on_day noon 11 0 0) noon \<le> 0
   \<and> wait_and_request env_noon (on_day noon 11 0 0) ''http://ifconfig.co/'' 1 world0 =
       do_request env_noon ''http://ifconfig.co/'' 1 (world0\<lparr>reads := 1, instant := instant_of noon\<rparr>)
   \<and> (\<exists>r. requests (snd (wait_and_request env_noon (on_day noon 11 0 0) ''http://ifconfig.co/'' 1
                 world0)) = requests world0 @ [r]
          \<and> req_url r = ''http://ifconfig.co/'' \<and> req_sent_at r = instant_of noon
          \<and> fst (wait_and_request env_noon (on_day noon 11 0 0) ''http://ifconfig.co/'' 1 world0)
              = urlopen env_noon (length (requests world0)) r)"
proof -
  have n: "datetime_now env_noon world0 = (noon, world0\<lparr>reads := 1\<rparr>)"
    by (simp add: datetime_now_def env_noon_def world0_def)
  have d: "datetime_sub (on_day noon 11 0 0) noon \<le> 0"
    by (simp add: on_day_def noon_def calendar_eval)
  from due_task_fetches_at_once [OF n d, of "''http://ifconfig.co/''" 1]
  have "wait_and_request env_noon (on_day noon 11 0 0) ''http://ifconfig.co/'' 1 world0 =
       do_request env_noon ''http://ifconfig.co/'' 1 (world0\<lparr>reads := 1, instant := instant_of noon\<rparr>)
   \<and> (\<exists>r. requests (snd (wait_and_request env_noon (on_day noon 11 0 0) ''http://ifconfig.co/'' 1
                 world0)) = requests world0 @ [r]
          \<and> req_url r = ''http://ifconfig.co/'' \<and> req_sent_at r = instant_of noon
          \<and> fst (wait_and_request env_noon (on_day noon 11 0 0) ''http://ifconfig.co/'' 1 world0)
              = urlopen env_noon (length (requests world0)) r)" .
  with n d show ?thesis by (intro conjI) (rule n, rule d, blast+)
qed

subsection \<open>Intake\<close>

text \<open>
  Claim C4: for every batch of \<open>N\<close> strings the first loop ends normally, whatever the
  strings are, and each entry has added one to exactly one of the two counters:
  launched plus skipped is \<open>N\<close>, skipped is the number of entries that do not parse plus
  the number of entries already past, and launched is the number of the others. These
  are the first two numbers that \<open>start\<close> returns.
\<close>

theorem every_entry_counted_once:
  "\<exists>l w1. intake env ts (locals0, w) = Inr (l, w1)
     \<and> passes l + skips l = length ts
     \<and> skips l = count_list (classify env ts (reads w)) Unparsable
                  + count_list (classify env ts (reads w)) AlreadyPassed
     \<and> passes l = count_list (classify env ts (reads w)) Upcoming
     \<and> (\<forall>p s e w2. start env ts w = Inr ((p, s, e), w2) \<longrightarrow> p = passes l \<and> s = skips l)"
proof -
  from intake_locals0 [of env ts w] obtain l w1 where
    i: "intake env ts (locals0, w) = Inr (l, w1)"
    and p: "passes l = count_list (classify env ts (reads w)) Upcoming"
    and s: "skips l = count_list (classify env ts (reads w)) Unparsable
                  + count_list (classify env ts (reads w)) AlreadyPassed" by blast
  from p s count_kinds [of "classify env ts (reads w)"]
  have n: "passes l + skips l = length ts" by (simp add: length_classify)
  have "\<forall>p s e w2. start env ts w = Inr ((p, s, e), w2) \<longrightarrow> p = passes l \<and> s = skips l"
    using i by (auto dest!: start_Inr)
  with i p s n show ?thesis by blast
qed

theorem every_entry_counted_once_witness:
  "start env_429 [(ascii ''bad-time''), (ascii ''11:59:59''), (ascii ''12:00:00''), (ascii ''23:59:59'')] world0 =
     Inr ((2, 2, 1),
          \<lparr>reads = 8, instant = 63846230399250000,
           requests = [\<lparr>req_url = ''http://ifconfig.co/'', req_user_agent = ''Mozilla/5.0'',
                        req_timeout = 1, req_sent_at = 63846187200000000\<rparr>,
                       \<lparr>req_url = ''http://ifconfig.co/'', req_user_agent = ''Mozilla/5.0'',
                        req_timeout = 1, req_sent_at = 63846230399000000\<rparr>]\<rparr>)
   \<and> (\<exists>l w1. intake env_429 [(ascii ''bad-time''), (ascii ''11:59:59''), (ascii ''12:00:00''), (ascii ''23:59:59'')]
                 (locals0, world0) = Inr (l, w1)
          \<and> passes l + skips l = 4 \<and> passes l = 2 \<and> skips l = 2)"
proof -
  note ev = start_429_batch
  from every_entry_counted_once
         [of env_429 "[(ascii ''bad-time''), (ascii ''11:59:59''), (ascii ''12:00:00''), (ascii ''23:59:59'')]" world0]
  obtain l w1 where
    i: "intake env_429 [(ascii ''bad-time''), (ascii ''11:59:59''), (ascii ''12:00:00''), (ascii ''23:59:59'')] (locals0, world0)
          = Inr (l, w1)"
    and n: "passes l + skips l = length [(ascii ''bad-time''), (ascii ''11:59:59''), (ascii ''12:00:00''), (ascii ''23:59:59'')]"
    and a: "\<forall>p s e w2.
             start env_429 [(ascii ''bad-time''), (ascii ''11:59:59''), (ascii ''12:00:00''), (ascii ''23:59:59'')] world0
               = Inr ((p, s, e), w2) \<longrightarrow> p = passes l \<and> s = skips l"
    by blast
  from a ev have p: "passes l = 2" "skips l = 2" by auto
  then have "passes l + skips l = 4" by simp
  with i p have "\<exists>l w1. intake env_429 [(ascii ''bad-time''), (ascii ''11:59:59''), (ascii ''12:00:00''), (ascii ''23:59:59'')]
                 (locals0, world0) = Inr (l, w1)
          \<and> passes l + skips l = 4 \<and> passes l = 2 \<and> skips l = 2" by blast
  with ev show ?thesis by (rule conjI)
qed

text \<open>
  Claim C7: a valid time string whose time of day is earlier than the time of day of the
  clock when the entry is taken up adds one to skipped and creates no task, and the loop
  goes on with the rest of the batch. Alone in a batch it gives launched 0, skipped 1,
  errored 0, and no request is sent.
\<close>

theorem past_entry_skipped:
  assumes "intake env pre (l0, w0) = Inr (l, w)"
    and "parse_timestring env s w = (Inr dt, w1)"
    and "datetime_now env w1 = (now, w2)"
    and "time_lt (time_of dt) (time_of now)"
  shows "intake env (pre @ s # post) (l0, w0) = intake env post (l\<lparr>skips := skips l + 1\<rparr>, w2)
     \<and> start env [s] w = Inr ((0, 1, 0), w2) \<and> requests w2 = requests w"
proof -
  from assms(2-4) have b: "intake_body env s (l', w) = Inr (l'\<lparr>skips := skips l' + 1\<rparr>, w2)" for l'
    by (simp add: intake_body_def)
  from assms(2,3) have r: "requests w2 = requests w"
    by (auto simp: parse_timestring_def datetime_today_def datetime_now_def split: sum.splits)
  have "intake env (pre @ s # post) (l0, w0) = intake env post (l\<lparr>skips := skips l + 1\<rparr>, w2)"
    using assms(1) b by (simp add: intake_append)
  moreover have "start env [s] w = Inr ((0, 1, 0), w2)"
    using b [of locals0]
    by (simp add: start_def locals0_def as_completed_def run_tasks_def last_finish_def)
  ultimately show ?thesis using r by simp
qed

theorem past_entry_skipped_witness:
  "intake env_noon [] (locals0, world0) = Inr (locals0, world0)
   \<and> parse_timestring env_noon (ascii ''11:59:59'') world0
       = (Inr (on_day noon 11 59 59), world0\<lparr>reads := 1\<rparr>)
   \<and> datetime_now env_noon (world0\<lparr>reads := 1\<rparr>) = (noon, world0\<lparr>reads := 2\<rparr>)
   \<and> time_lt (time_of (on_day noon 11 59 59)) (time_of noon)
   \<and> intake env_noon ([] @ (ascii ''11:59:59'') # [(ascii ''23:59:59'')]) (locals0, world0)
       = intake env_noon [(ascii ''23:59:59'')] (locals0\<lparr>skips := skips locals0 + 1\<rparr>, world0\<lparr>reads := 2\<rparr>)
   \<and> start env_noon [(ascii ''11:59:59'')] world0 = Inr ((0, 1, 0), world0\<lparr>reads := 2\<rparr>)
   \<and> requests (world0\<lparr>reads := 2\<rparr>) = requests world0"
proof -
  have 1: "intake env_noon [] (locals0, world0) = Inr (locals0, world0)"
    by simp
  have 2: "parse_timestring env_noon (ascii ''11:59:59'') world0
             = (Inr (on_day noon 11 59 59), world0\<lparr>reads := 1\<rparr>)"
    by (simp add: parse_timestring_def strptime_eval datetime_today_def datetime_now_def
          on_day_def env_noon_def world0_def)
  have 3: "datetime_now env_noon (world0\<lparr>reads := 1\<rparr>) = (noon, world0\<lparr>reads := 2\<rparr>)"
    by (simp add: datetime_now_def env_noon_def world0_def)
  have 4: "time_lt (time_of (on_day noon 11 59 59)) (time_of noon)"
    by (simp add: time_of_def on_day_def noon_def)
  note c = past_entry_skipped [OF 1 2 3 4, of "[(ascii ''23:59:59'')]"]
  show ?thesis by (intro conjI) (rule 1, rule 2, rule 3, rule 4, rule c [THEN conjunct1],
    rule c [THEN conjunct2, THEN conjunct1], rule c [THEN conjunct2, THEN conjunct2])
qed

text \<open>
  Claim C9: an entry whose time of day equals the time of day of the clock when the entry is
  taken up (microseconds included) is launched, not skipped: the test is a strict
  \<open><\<close>. The loop goes on with one more task, for the parsed instant, and launched one
  higher.
\<close>

theorem entry_at_now_launched:
  assumes "intake env pre (l0, w0) = Inr (l, w)"
    and "parse_timestring env s w = (Inr dt, w1)"
    and "datetime_now env w1 = (now, w2)"
    and "time_of dt = time_of now"
  shows "intake env (pre @ s # post) (l0, w0) =
           intake env post
             (l\<lparr>tasks := tasks l @ [\<lparr>task_dt = dt, task_url = wait_and_request_url_default,
                                      task_timeout = wait_and_request_timeout_default\<rparr>],
                passes := passes l + 1\<rparr>, w2)"
proof -
  have "\<not> time_lt t t" for t by (cases t) auto
  with assms(4) have "\<not> time_lt (time_of dt) (time_of now)" by simp
  with assms(2,3) have
    "intake_body env s (l, w) =
       Inr (l\<lparr>tasks := tasks l @ [\<lparr>task_dt = dt, task_url = wait_and_request_url_default,
                                      task_timeout = wait_and_request_timeout_default\<rparr>],
                passes := passes l + 1\<rparr>, w2)"
    by (simp add: intake_body_def)
  with assms(1) show ?thesis by (simp add: intake_append)
qed

theorem entry_at_now_launched_witness:
  "intake env_noon [] (locals0, world0) = Inr (locals0, world0)
   \<and> parse_timestring env_noon (ascii ''12:00:00'') world0
       = (Inr (on_day noon 12 0 0), world0\<lparr>reads := 1\<rparr>)
   \<and> datetime_now env_noon (world0\<lparr>reads := 1\<rparr>) = (noon, world0\<lparr>reads := 2\<rparr>)
   \<and> time_of (on_day noon 12 0 0) = time_of noon
   \<and> intake env_noon ([] @ (ascii ''12:00:00'') # []) (locals0, world0)
       = intake env_noon []
           (locals0\<lparr>tasks := tasks locals0 @
                       [\<lparr>task_dt = on_day noon 12 0 0, task_url = wait_and_request_url_default,
                         task_timeout = wait_and_request_timeout_default\<rparr>],
                    passes := passes locals0 + 1\<rparr>,
            world0\<lparr>reads := 2\<rparr>)"
proof -
  have 1: "intake env_noon [] (locals0, world0) = Inr (locals0, world0)"
    by simp
  have 2: "parse_timestring env_noon (ascii ''12:00:00'') world0
             = (Inr (on_day noon 12 0 0), world0\<lparr>reads := 1\<rparr>)"
    by (simp add: parse_timestring_def strptime_eval datetime_today_def datetime_now_def
          on_day_def env_noon_def world0_def)
  have 3: "datetime_now env_noon (world0\<lparr>reads := 1\<rparr>) = (noon, world0\<lparr>reads := 2\<rparr>)"
    by (simp add: datetime_now_def env_noon_def world0_def)
  have 4: "time_of (on_day noon 12 0 0) = time_of noon"
    by (simp add: time_of_def on_day_def noon_def)
  note c = entry_at_now_launched [OF 1 2 3 4, of "[]"]
  show ?thesis by (intro conjI) (rule 1, rule 2, rule 3, rule 4, rule c)
qed

text \<open>
  Claim C2, as amended: for the batch of the single entry \<open>23:59:59\<close>, taken up while the
  clock shows 12:00:00, the entry is not past: the loop creates one task, for 23:59:59, and
  \<open>start\<close>, when it returns, returns launched 1 and skipped 0, one request having been sent.
  (The claim as written has skipped 1, launched 0 and no request; 23:59:59 is later than
  12:00:00, and the test \<open>dt.time() < now.time()\<close> is false.)
\<close>

theorem evening_entry_at_noon_launched:
  assumes "\<forall>k. time_of (clock env k) = (12, 0, 0, 0)"
  shows "\<exists>l w1. intake env [(ascii ''23:59:59'')] (locals0, w) = Inr (l, w1)
     \<and> passes l = 1 \<and> skips l = 0
     \<and> map (\<lambda>t. time_of (task_dt t)) (tasks l) = [(23, 59, 59, 0)]
     \<and> (\<forall>p s e w2. start env [(ascii ''23:59:59'')] w = Inr ((p, s, e), w2) \<longrightarrow>
           p = 1 \<and> s = 0 \<and> length (requests w2) = length (requests w) + 1)"
proof -
  from assms have n: "time_of (clock env (reads w + 1)) = (12, 0, 0, 0)" by blast
  have k: "classify env [(ascii ''23:59:59'')] (reads w) = [Upcoming]"
    using n by (simp add: strptime_eval time_of_def)
  have i: "intake env [(ascii ''23:59:59'')] (locals0, w) =
             Inr (locals0\<lparr>tasks := tasks locals0 @ [new_task env w
                     \<lparr>year = 1900, month = 1, day = 1, hour = 23, minute = 59, second = 59,
                      microsecond = 0\<rparr>],
                   passes := passes locals0 + 1\<rparr>, w\<lparr>reads := reads w + 2\<rparr>)"
    using n by (simp add: intake_body_eq strptime_eval time_of_def)
  have "\<forall>p s e w2. start env [(ascii ''23:59:59'')] w = Inr ((p, s, e), w2) \<longrightarrow>
           p = 1 \<and> s = 0 \<and> length (requests w2) = length (requests w) + 1"
  proof (intro allI impI)
    fix p s e w2
    assume st: "start env [(ascii ''23:59:59'')] w = Inr ((p, s, e), w2)"
    from start_counts(3,4,5) [OF st] k
    show "p = 1 \<and> s = 0 \<and> length (requests w2) = length (requests w) + 1" by simp
  qed
  with i show ?thesis by (simp add: locals0_def new_task_def time_of_def)
qed

theorem evening_entry_at_noon_launched_witness:
  "(\<forall>k. time_of (clock env_noon k) = (12, 0, 0, 0))
   \<and> start env_noon [(ascii ''23:59:59'')] world0 =
       Inr ((1, 0, 0),
            \<lparr>reads = 3, instant = 63846230399250000,
             requests = [\<lparr>req_url = ''http://ifconfig.co/'', req_user_agent = ''Mozilla/5.0'',
                          req_timeout = 1, req_sent_at = 63846230399000000\<rparr>]\<rparr>)
   \<and> (\<exists>l w1. intake env_noon [(ascii ''23:59:59'')] (locals0, world0) = Inr (l, w1)
          \<and> passes l = 1 \<and> skips l = 0
          \<and> map (\<lambda>t. time_of (task_dt t)) (tasks l) = [(23, 59, 59, 0)])"
proof -
  have h: "\<forall>k. time_of (clock env_noon k) = (12, 0, 0, 0)"
    by (simp add: env_noon_def noon_def time_of_def)
  from evening_entry_at_noon_launched [OF h, of world0]
  have "\<exists>l w1. intake env_noon [(ascii ''23:59:59'')] (locals0, world0) = Inr (l, w1)
          \<and> passes l = 1 \<and> skips l = 0
          \<and> map (\<lambda>t. time_of (task_dt t)) (tasks l) = [(23, 59, 59, 0)]" by auto
  then show ?thesis by (intro conjI) (rule h, rule start_noon_235959)
qed

text \<open>The claim as written fails on the run it describes: with the clock at 12:00:00 the batch
  returns launched 1, skipped 0, and a request is sent (at 23:59:59).\<close>

theorem evening_entry_at_noon_counterexample:
  "time_of (clock env_noon 0) = (12, 0, 0, 0)
   \<and> start env_noon [(ascii ''23:59:59'')] world0 =
       Inr ((1, 0, 0),
            \<lparr>reads = 3, instant = 63846230399250000,
             requests = [\<lparr>req_url = ''http://ifconfig.co/'', req_user_agent = ''Mozilla/5.0'',
                          req_timeout = 1, req_sent_at = 63846230399000000\<rparr>]\<rparr>)"
  using start_noon_235959 by (simp add: env_noon_def noon_def time_of_def)

subsection \<open>Draining\<close>

text \<open>
  Claim C3: the first number that \<open>start\<close> returns is the number of tasks launched, not
  the number that succeeded. Whenever \<open>start\<close> returns \<open>(p, s, e)\<close>, \<open>p\<close> is the number of
  results of launched tasks, failed or not, and \<open>e\<close> is the number of those that are
  exceptions: a task that fails is counted once in \<open>p\<close> and once in \<open>e\<close>, and \<open>p\<close> is
  \<open>e\<close> plus the number of tasks that succeeded.
\<close>

theorem launched_includes_failed:
  assumes "start env ts w = Inr ((p, s, e), w')"
  shows "p = length (outcomes env ts w)
     \<and> e = length (filter raised (outcomes env ts w))
     \<and> p = e + length (filter (\<lambda>r. \<not> raised r) (outcomes env ts w))"
proof -
  have "length (filter raised rs) + length (filter (\<lambda>r. \<not> raised r) rs) = length rs"
    for rs :: "(exn + response) list"
    by (rule sum_length_filter_compl)
  with start_counts(1,2) [OF assms] show ?thesis by simp
qed

theorem launched_includes_failed_witness:
  "start env_429 [(ascii ''bad-time''), (ascii ''11:59:59''), (ascii ''12:00:00''), (ascii ''23:59:59'')] world0 =
     Inr ((2, 2, 1),
          \<lparr>reads = 8, instant = 63846230399250000,
           requests = [\<lparr>req_url = ''http://ifconfig.co/'', req_user_agent = ''Mozilla/5.0'',
                        req_timeout = 1, req_sent_at = 63846187200000000\<rparr>,
                       \<lparr>req_url = ''http://ifconfig.co/'', req_user_agent = ''Mozilla/5.0'',
                        req_timeout = 1, req_sent_at = 63846230399000000\<rparr>]\<rparr>)
   \<and> 2 = length (outcomes env_429 [(ascii ''bad-time''), (ascii ''11:59:59''), (ascii ''12:00:00''), (ascii ''23:59:59'')] world0)
   \<and> 1 = length (filter raised (outcomes env_429 [(ascii ''bad-time''), (ascii ''11:59:59''), (ascii ''12:00:00''), (ascii ''23:59:59'')] world0))
   \<and> 2 = 1 + length (filter (\<lambda>r. \<not> raised r) (outcomes env_429 [(ascii ''bad-time''), (ascii ''11:59:59''), (ascii ''12:00:00''), (ascii ''23:59:59'')] world0))"
proof -
  note c = launched_includes_failed [OF start_429_batch]
  show ?thesis
    by (intro conjI) (rule start_429_batch, rule c [THEN conjunct1],
      rule c [THEN conjunct2, THEN conjunct1], rule c [THEN conjunct2, THEN conjunct2])
qed

text \<open>
  Claim C5: every exception raised in a launched task (an \<open>HTTPError\<close> or any other
  instance of \<open>Exception\<close>, which is what \<open>urlopen\<close> raises) is handled in the second loop
  and counted; none leaves \<open>start\<close>. For every batch whose tasks raise nothing but
  instances of \<open>Exception\<close>, however many of them fail, \<open>start\<close> returns its triple, and the
  third number is the number of tasks that raised.
\<close>

theorem failures_stay_in_batch:
  assumes "\<forall>e. Inl e \<in> set (outcomes env ts w) \<longrightarrow> is_Exception e"
  shows "\<exists>p s w'. start env ts w = Inr ((p, s, length (filter raised (outcomes env ts w))), w')"
  using assms by (rule start_ok)

theorem failures_stay_in_batch_witness:
  "outcomes env_429 [(ascii ''bad-time''), (ascii ''11:59:59''), (ascii ''12:00:00''), (ascii ''23:59:59'')] world0 =
     [Inl (HTTPError 429 ''Too Many Requests''),
      Inr \<lparr>status = 200, url = ''http://ifconfig.co/''\<rparr>]
   \<and> is_Exception (HTTPError 429 ''Too Many Requests'')
   \<and> (\<exists>p s w'. start env_429 [(ascii ''bad-time''), (ascii ''11:59:59''), (ascii ''12:00:00''), (ascii ''23:59:59'')] world0 =
         Inr ((p, s, length (filter raised (outcomes env_429 [(ascii ''bad-time''), (ascii ''11:59:59''), (ascii ''12:00:00''), (ascii ''23:59:59'')] world0))), w'))"
proof -
  have h: "\<forall>e. Inl e \<in> set (outcomes env_429 [(ascii ''bad-time''), (ascii ''11:59:59''), (ascii ''12:00:00''), (ascii ''23:59:59'')] world0) \<longrightarrow> is_Exception e"
    by (simp add: outcomes_429_batch)
  have x: "is_Exception (HTTPError 429 ''Too Many Requests'')" by simp
  show ?thesis
    by (intro conjI) (rule outcomes_429_batch, rule x, rule failures_stay_in_batch [OF h])
qed

text \<open>
  Claim C10: in the triple that \<open>start\<close> returns, errored is at most launched (and, being
  a count, at least 0): each error is the one result of one launched task.
\<close>

theorem errored_le_launched:
  assumes "start env ts w = Inr ((p, s, e), w')"
  shows "e \<le> p"
  using start_counts(1,2) [OF assms] by simp

theorem errored_le_launched_witness:
  "start env_429 [(ascii ''bad-time''), (ascii ''11:59:59''), (ascii ''12:00:00''), (ascii ''23:59:59'')] world0 =
     Inr ((2, 2, 1),
          \<lparr>reads = 8, instant = 63846230399250000,
           requests = [\<lparr>req_url = ''http://ifconfig.co/'', req_user_agent = ''Mozilla/5.0'',
                        req_timeout = 1, req_sent_at = 63846187200000000\<rparr>,
                       \<lparr>req_url = ''http://ifconfig.co/'', req_user_agent = ''Mozilla/5.0'',
                        req_timeout = 1, req_sent_at = 63846230399000000\<rparr>]\<rparr>)
   \<and> (1::nat) \<le> 2"
  by (intro conjI) (rule start_429_batch, rule errored_le_launched [OF start_429_batch])

end
